theory Spec2Isabelle
  imports Main "HOL-Library.Sublist"
begin

section \<open>Universal terminal: the C sources as HOL functions\<close>

text \<open>
  The repository holds three variants of one program: \<^verbatim>\<open>custard.c\<close> (the full mapping
  set), \<^verbatim>\<open>cust.c\<close> (a short table, verbatim fallback) and a third file with an
  answer-text fallback. The helpers (\<^verbatim>\<open>trim\<close>, \<^verbatim>\<open>lc_copy\<close>, \<^verbatim>\<open>split_first\<close>,
  \<^verbatim>\<open>replace_first\<close>, \<^verbatim>\<open>add_history\<close>, \<^verbatim>\<open>expand_bang\<close>, \<^verbatim>\<open>translate_pipeline\<close>)
  are the same C text in all three; \<^verbatim>\<open>map_command\<close> differs and is embedded once per file.

  A C string is modelled by its content, the bytes before the terminating NUL, as a
  \<^typ>\<open>string\<close>. \<^verbatim>\<open>strdup\<close> is the identity on contents (allocation is taken to succeed).
  A write past the end of a fixed buffer, a signed overflow in a conversion and a read
  through a dead pointer are undefined behaviour in C: the model returns \<open>None\<close>
  (or \<open>Undefined\<close>) there, so a theorem \<open>f x = Some y\<close> also says that the call is defined.
\<close>

subsection \<open>Constants\<close>

definition MAX_LINE :: nat where "MAX_LINE = 8192"
definition MAX_TOK :: nat where "MAX_TOK = 256"
definition MAX_HISTORY :: nat where "MAX_HISTORY = 1000"
definition INT_MAX :: int where "INT_MAX = 2147483647"
definition INT_MIN :: int where "INT_MIN = - 2147483648"

subsection \<open>\<^verbatim>\<open>ctype.h\<close> in the C locale\<close>

definition isspace :: "char \<Rightarrow> bool" where
  "isspace c = (c \<in> set [CHR 0x20, CHR 0x09, CHR 0x0A, CHR 0x0B, CHR 0x0C, CHR 0x0D])"

definition isdigit :: "char \<Rightarrow> bool" where
  "isdigit c = (c \<in> set ''0123456789'')"

definition tolower :: "char \<Rightarrow> char" where
  "tolower c =
     (case map_of (zip ''ABCDEFGHIJKLMNOPQRSTUVWXYZ'' ''abcdefghijklmnopqrstuvwxyz'') c of
        Some d \<Rightarrow> d
      | None \<Rightarrow> c)"

subsection \<open>String helpers\<close>

text \<open>\<^verbatim>\<open>trim\<close>: drop the leading white space, then cut the trailing white space.\<close>

definition trim :: "string \<Rightarrow> string" where
  "trim s = rev (dropWhile isspace (rev (dropWhile isspace s)))"

text \<open>\<^verbatim>\<open>lc_copy\<close>: a lower-cased copy, byte by byte.\<close>

definition lc_copy :: "string \<Rightarrow> string" where
  "lc_copy s = map tolower s"

text \<open>
  \<^verbatim>\<open>split_first(in, first, rest)\<close>, with \<^verbatim>\<open>first\<close> a buffer of \<^verbatim>\<open>MAX_TOK\<close> bytes and
  \<^verbatim>\<open>rest\<close> one of \<^verbatim>\<open>MAX_LINE\<close> bytes, as at every call but the one in the \<^verbatim>\<open>head\<close> rule.
  The token is copied with \<^verbatim>\<open>strncpy(first, start, p-start); first[p-start]=0\<close>, which
  writes past \<^verbatim>\<open>first\<close> when the token has \<^verbatim>\<open>MAX_TOK\<close> bytes or more: \<open>None\<close>.
  The rest is cut to \<^verbatim>\<open>MAX_LINE-1\<close> bytes.
\<close>

definition split_first :: "string \<Rightarrow> (string \<times> string) option" where
  "split_first inp =
     (case dropWhile isspace inp of
        [] \<Rightarrow> Some ([], [])
      | c # cs \<Rightarrow>
          if c = CHR 0x27 \<or> c = CHR 0x22 then
            (let tok = takeWhile (\<lambda>x. x \<noteq> c) cs;
                 p = drop 1 (dropWhile (\<lambda>x. x \<noteq> c) cs)
             in if MAX_TOK \<le> length tok then None
                else Some (tok, take (MAX_LINE - 1) (dropWhile isspace p)))
          else
            (let tok = takeWhile (\<lambda>x. \<not> isspace x) (c # cs);
                 p = dropWhile (\<lambda>x. \<not> isspace x) (c # cs)
             in if MAX_TOK \<le> length tok then None
                else Some (tok, take (MAX_LINE - 1) (dropWhile isspace p))))"

text \<open>
  \<^verbatim>\<open>strstr(s, old)\<close>: the suffix of \<open>s\<close> that starts at the first occurrence of
  \<open>old\<close> (the pointer C returns), \<open>None\<close> for the null pointer.
\<close>

fun strstr :: "string \<Rightarrow> string \<Rightarrow> string option" where
  "strstr [] old = (if old = [] then Some [] else None)"
| "strstr (c # cs) old = (if prefix old (c # cs) then Some (c # cs) else strstr cs old)"

text \<open>
  \<^verbatim>\<open>replace_first(s, old, new)\<close> on a buffer of \<^verbatim>\<open>MAX_LINE\<close> bytes: the new content of
  \<open>s\<close> (the 0/1 return value is ignored by every caller). \<^verbatim>\<open>snprintf\<close> cuts the result to
  \<^verbatim>\<open>MAX_LINE-1\<close> bytes.
\<close>

definition replace_first :: "string \<Rightarrow> string \<Rightarrow> string \<Rightarrow> string" where
  "replace_first s old new =
     (case strstr s old of
        None \<Rightarrow> s
      | Some pos \<Rightarrow>
          take (MAX_LINE - 1)
            (take (length s - length pos) s @ new @ drop (length old) pos))"

subsection \<open>Decimal conversions\<close>

definition digit_val :: "char \<Rightarrow> int" where
  "digit_val c = (case map_of (zip ''0123456789'' [0, 1, 2, 3, 4, 5, 6, 7, 8, 9]) c of
                    Some d \<Rightarrow> d | None \<Rightarrow> 0)"

definition digits_val :: "string \<Rightarrow> int" where
  "digits_val ds = foldl (\<lambda>a c. 10 * a + digit_val c) 0 ds"

text \<open>
  \<^verbatim>\<open>atoi\<close>: white space, an optional sign, then the longest run of digits. A value that
  does not fit an \<^verbatim>\<open>int\<close> is undefined behaviour: \<open>None\<close>.
\<close>

definition atoi :: "string \<Rightarrow> int option" where
  "atoi s =
     (let p = dropWhile isspace s;
          neg = (case p of [] \<Rightarrow> False | c # _ \<Rightarrow> c = CHR ''-'');
          q = (case p of [] \<Rightarrow> [] | c # r \<Rightarrow> if c = CHR ''-'' \<or> c = CHR ''+'' then r else p);
          v = digits_val (takeWhile isdigit q);
          r = (if neg then - v else v)
      in if INT_MIN \<le> r \<and> r \<le> INT_MAX then Some r else None)"

subsection \<open>History\<close>

text \<open>
  The globals \<^verbatim>\<open>history[MAX_HISTORY]\<close> and \<^verbatim>\<open>hist_count\<close> are one list: its length is
  \<^verbatim>\<open>hist_count\<close>, its element \<open>i\<close> is \<^verbatim>\<open>history[i]\<close>. The argument of \<^verbatim>\<open>add_history\<close> is
  a pointer: \<open>None\<close> is the null pointer. In the full case \<^verbatim>\<open>memmove\<close> shifts the slots
  \<open>1 .. MAX_HISTORY-1\<close> down by one and the new entry takes the last slot.
\<close>

definition add_history :: "string option \<Rightarrow> string list \<Rightarrow> string list" where
  "add_history cmd hist =
     (case cmd of
        None \<Rightarrow> hist
      | Some c \<Rightarrow>
          if length c = 0 then hist
          else if length hist < MAX_HISTORY then hist @ [c]
          else take (MAX_HISTORY - 1) (tl hist) @ [c])"

text \<open>
  \<^verbatim>\<open>expand_bang\<close>. The test \<^verbatim>\<open>cmd[0]=='!' && isdigit(cmd[1])\<close> reads the terminating NUL
  of a shorter string, which is neither \<^verbatim>\<open>'!'\<close> nor a digit.
\<close>

definition expand_bang :: "string list \<Rightarrow> string \<Rightarrow> string option" where
  "expand_bang hist cmd =
     (if cmd = ''!!'' then
        (if length hist = 0 then Some [] else Some (hist ! (length hist - 1)))
      else if (case cmd of c0 # c1 # _ \<Rightarrow> c0 = CHR ''!'' \<and> isdigit c1 | _ \<Rightarrow> False) then
        (case atoi (drop 1 cmd) of
           None \<Rightarrow> None
         | Some n \<Rightarrow>
             if n \<le> 0 \<or> n > int (length hist) then Some []
             else Some (hist ! nat (n - 1)))
      else Some cmd)"

subsection \<open>Buffers and formatting\<close>

text \<open>
  \<^verbatim>\<open>snprintf(buf, sz, ...)\<close> keeps the first \<open>sz - 1\<close> bytes of the formatted text;
  \<^verbatim>\<open>strncat(dst, src, sz - strlen(dst) - 1)\<close> appends what still fits a buffer of
  \<open>sz\<close> bytes. \<^verbatim>\<open>mapped\<close>, \<^verbatim>\<open>trybash\<close> and \<^verbatim>\<open>buf\<close> have \<^verbatim>\<open>MAX_LINE*2\<close> bytes.
\<close>

definition snprintf :: "nat \<Rightarrow> string \<Rightarrow> string" where
  "snprintf sz s = take (sz - 1) s"

definition strncat :: "nat \<Rightarrow> string \<Rightarrow> string \<Rightarrow> string" where
  "strncat sz dst src = dst @ take (sz - length dst - 1) src"

definition SETM :: "string \<Rightarrow> string" where
  "SETM s = snprintf (MAX_LINE * 2) s"

definition APPREST :: "string \<Rightarrow> string \<Rightarrow> string" where
  "APPREST rest mapped =
     (if length rest \<noteq> 0 then
        strncat (MAX_LINE * 2)
          (if length mapped \<noteq> 0 then strncat (MAX_LINE * 2) mapped '' '' else mapped) rest
      else mapped)"

text \<open>\<^verbatim>\<open>%d\<close> of \<^verbatim>\<open>printf\<close>.\<close>

fun show_nat :: "nat \<Rightarrow> string" where
  "show_nat n =
     (if n < 10 then [''0123456789'' ! n]
      else show_nat (n div 10) @ [''0123456789'' ! (n mod 10)])"

declare show_nat.simps [simp del]

definition show_int :: "int \<Rightarrow> string" where
  "show_int i = (if i < 0 then CHR ''-'' # show_nat (nat (- i)) else show_nat (nat i))"

text \<open>
  \<^verbatim>\<open>sscanf(nptr, "-n %d", &N)\<close> on a string that starts with \<^verbatim>\<open>-n\<close>: white space is
  skipped, then an optional sign and at least one digit are read. A number that does not
  fit an \<^verbatim>\<open>int\<close> is undefined behaviour.
\<close>

datatype scan = NoMatch | Overflow | Scanned int

definition sscanf_n :: "string \<Rightarrow> scan" where
  "sscanf_n nptr =
     (let p = dropWhile isspace (drop 2 nptr);
          neg = (case p of [] \<Rightarrow> False | c # _ \<Rightarrow> c = CHR ''-'');
          q = (case p of [] \<Rightarrow> [] | c # r \<Rightarrow> if c = CHR ''-'' \<or> c = CHR ''+'' then r else p);
          ds = takeWhile isdigit q;
          r = (if neg then - digits_val ds else digits_val ds)
      in if ds = [] then NoMatch
         else if INT_MIN \<le> r \<and> r \<le> INT_MAX then Scanned r else Overflow)"

text \<open>
  The last token of the loop \<^verbatim>\<open>tok = strtok(temp, " "); while(tok){ fn = tok; tok =
  strtok(NULL," "); }\<close>: the last maximal run of bytes other than the space; \<open>None\<close> is
  the null pointer.
\<close>

definition strtok_last :: "string \<Rightarrow> string option" where
  "strtok_last temp =
     (case dropWhile (\<lambda>c. c = CHR '' '') (rev temp) of
        [] \<Rightarrow> None
      | r \<Rightarrow> Some (rev (takeWhile (\<lambda>c. c \<noteq> CHR '' '') r)))"

text \<open>
  A format string printed with no arguments (\<^verbatim>\<open>SETM(rest)\<close> in the \<^verbatim>\<open>powershell\<close> rule):
  \<^verbatim>\<open>%%\<close> prints one \<^verbatim>\<open>%\<close>, any other conversion reads an argument that was not
  passed, which is undefined behaviour.
\<close>

fun format_no_args :: "string \<Rightarrow> string option" where
  "format_no_args [] = Some []"
| "format_no_args [c] = (if c = CHR ''%'' then None else Some [c])"
| "format_no_args (c # d # r) =
     (if c = CHR ''%'' then
        (if d = CHR ''%'' then map_option (\<lambda>t. CHR ''%'' # t) (format_no_args r) else None)
      else map_option (\<lambda>t. c # t) (format_no_args (d # r)))"

subsection \<open>\<^verbatim>\<open>map_command\<close> of \<^verbatim>\<open>custard.c\<close>\<close>

text \<open>
  The block \<^verbatim>\<open>if(!source_is_windows && host_is_windows){...}\<close>, rule by rule and in the
  order of the source. \<open>input\<close> is the stage, \<open>first_lc\<close> the lower-cased first token,
  \<open>rest\<close> what \<^verbatim>\<open>split_first\<close> left.

  The \<^verbatim>\<open>head\<close> rule starts with \<^verbatim>\<open>char sec[MAX_TOK]; split_first(rest, sec, sec)\<close>.
  With an empty \<open>rest\<close> that call returns early; otherwise its last step
  \<^verbatim>\<open>strncpy(rest, p, MAX_LINE-1)\<close> writes \<^verbatim>\<open>MAX_LINE-1\<close> bytes (\<^verbatim>\<open>strncpy\<close> pads with NUL)
  into the \<^verbatim>\<open>MAX_TOK\<close> bytes of \<^verbatim>\<open>sec\<close>: undefined, whatever the rule does next.
\<close>

definition posix_to_windows :: "string \<Rightarrow> string \<Rightarrow> string \<Rightarrow> string option" where
  \<open>posix_to_windows input first_lc rest =
     (if first_lc = ''pwd'' then Some (SETM ''cd'')
      else if first_lc = ''ls'' then
        (if strstr rest ''-l'' \<noteq> None \<and> strstr rest ''-a'' \<noteq> None
           then Some (APPREST rest (SETM ''dir /a /q''))
         else if strstr rest ''-l'' \<noteq> None then Some (APPREST rest (SETM ''dir''))
         else if strstr rest ''-a'' \<noteq> None then Some (APPREST rest (SETM ''dir /a''))
         else Some (APPREST rest (SETM ''dir'')))
      else if first_lc = ''mkdir'' then Some (APPREST rest (SETM ''mkdir''))
      else if first_lc = ''rmdir'' then Some (APPREST rest (SETM ''rmdir''))
      else if first_lc = ''rm'' then
        (if strstr rest ''-r'' \<noteq> None \<or> strstr rest ''-rf'' \<noteq> None then
           (let t = replace_first (replace_first rest ''-r'' []) ''-rf'' [];
                mapped = SETM ''rmdir /s /q''
            in Some (if length t \<noteq> 0
                     then strncat (MAX_LINE * 2) (strncat (MAX_LINE * 2) mapped '' '') t
                     else mapped))
         else Some (APPREST rest (SETM ''del'')))
      else if first_lc = ''touch'' then
        (if length rest \<noteq> 0 then
           Some (strncat (MAX_LINE * 2)
                   (strncat (MAX_LINE * 2) (SETM ''type nul >'') '' '') (trim rest))
         else Some ''rem touch: missing filename'')
      else if first_lc = ''cp'' then Some (APPREST rest (SETM ''copy''))
      else if first_lc = ''mv'' then Some (APPREST rest (SETM ''move''))
      else if first_lc = ''cat'' then Some (APPREST rest (SETM ''type''))
      else if first_lc = ''less'' \<or> first_lc = ''more'' then Some (APPREST rest (SETM ''more''))
      else if first_lc = ''head'' then
        (if length rest = 0 then Some (SETM ''more'') else None)
      else if first_lc = ''tail'' then
        (if strstr rest ''-f'' \<noteq> None \<or> strstr rest ''-F'' \<noteq> None then
           (let temp = trim (replace_first (replace_first rest ''-f'' []) ''-F'' [])
            in Some (snprintf (MAX_LINE * 2)
                       (''powershell -Command "Get-Content '' @ temp @ '' -Wait"'')))
         else
           (let dflt = strncat (MAX_LINE * 2)
                         (APPREST rest (SETM ''powershell -Command "Get-Content ''))
                         '' -Tail 10"''
            in case strstr rest ''-n'' of
                 None \<Rightarrow> Some dflt
               | Some nptr \<Rightarrow>
                   (case sscanf_n nptr of
                      NoMatch \<Rightarrow> Some dflt
                    | Overflow \<Rightarrow> None
                    | Scanned N \<Rightarrow>
                        (case strtok_last rest of
                           None \<Rightarrow> Some dflt
                         | Some fn \<Rightarrow>
                             Some (snprintf (MAX_LINE * 2)
                                     (''powershell -Command "Get-Content '' @ fn @
                                      '' -Tail '' @ show_int N @ ''"''))))))
      else if first_lc = ''chmod'' then
        Some (APPREST rest
                (SETM ''rem chmod not supported on Windows; use icacls or powershell Set-Acl''))
      else if first_lc = ''chown'' then
        Some (APPREST rest (SETM ''rem chown not supported on Windows; use icacls''))
      else if first_lc = ''whoami'' then Some (SETM ''whoami'')
      else if first_lc = ''uname'' then Some (APPREST rest (SETM ''systeminfo''))
      else if first_lc = ''hostname'' then Some (SETM ''hostname'')
      else if first_lc = ''date'' then Some (SETM ''date /t'')
      else if first_lc = ''uptime'' then Some (SETM ''net statistics workstation'')
      else if first_lc = ''df'' then Some (SETM ''wmic logicaldisk get caption,freespace,size'')
      else if first_lc = ''du'' then
        (let target = trim rest
         in if length target \<noteq> 0 then
              Some (snprintf (MAX_LINE * 2)
                      (''powershell -Command "(Get-ChildItem -Recurse '' @ target @
                       '' | Measure-Object -Property Length -Sum).Sum"''))
            else Some (SETM ''rem du needs directory''))
      else if first_lc = ''free'' then
        Some (SETM ''systeminfo | findstr /C:"Total Physical Memory" /C:"Available"'')
      else if first_lc = ''top'' \<or> first_lc = ''htop'' then Some (SETM ''tasklist'')
      else if first_lc = ''ps'' then
        (if strstr rest ''aux'' \<noteq> None then Some (SETM ''tasklist'')
         else Some (APPREST rest (SETM ''tasklist'')))
      else if first_lc = ''kill'' then
        (if strstr rest ''-9'' \<noteq> None then
           Some (snprintf (MAX_LINE * 2)
                   (''taskkill /PID '' @ trim (replace_first rest ''-9'' []) @ '' /F''))
         else Some (snprintf (MAX_LINE * 2) (''taskkill /PID '' @ trim rest)))
      else if first_lc = ''jobs'' \<or> first_lc = ''fg'' \<or> first_lc = ''bg'' then
        Some (APPREST rest
                (SETM (''rem job control not supported on Windows; '' @
                       ''use powershell background jobs or task manager'')))
      else if first_lc = ''ping'' then Some (APPREST rest (SETM ''ping''))
      else if first_lc = ''curl'' then Some (APPREST rest (SETM ''curl''))
      else if first_lc = ''wget'' then Some (APPREST rest (SETM ''curl -O''))
      else if first_lc = ''ifconfig'' \<or> (first_lc = ''ip'' \<and> strstr rest ''addr'' \<noteq> None) then
        Some (SETM ''ipconfig /all'')
      else if first_lc = ''netstat'' then Some (APPREST rest (SETM ''netstat -ano''))
      else if first_lc = ''ssh'' then Some (APPREST rest (SETM ''ssh''))
      else if first_lc = ''scp'' then Some (APPREST rest (SETM ''scp''))
      else if first_lc = ''sudo'' then
        (let t = trim rest
         in if length t \<noteq> 0 then Some t else Some ''rem sudo with no command'')
      else if first_lc = ''apt'' \<or> first_lc = ''dnf'' \<or> first_lc = ''pacman'' then
        Some (APPREST rest
                (SETM (''rem Package manager commands are not supported on Windows; '' @
                       ''consider using WSL or equivalent'')))
      else if first_lc = ''adduser'' \<or> first_lc = ''passwd'' \<or> first_lc = ''su'' then
        Some (APPREST rest
                (SETM ''rem User management must be done via Control Panel or net user on Windows''))
      else if first_lc = ''who'' \<or> first_lc = ''id'' \<or> first_lc = ''groups'' then
        Some (APPREST rest (SETM ''whoami''))
      else if first_lc = ''tar'' then
        (if strstr rest ''-czvf'' \<noteq> None \<or> strstr rest ''-czf'' \<noteq> None
           then Some (APPREST rest (SETM ''tar''))
         else Some (APPREST rest (SETM ''tar'')))
      else if first_lc = ''zip'' \<or> first_lc = ''unzip'' then
        (let mapped = (if first_lc = ''zip''
                       then SETM ''powershell -Command "Compress-Archive -Path''
                       else SETM ''powershell -Command "Expand-Archive -Path'');
             mapped1 = (if length rest \<noteq> 0
                        then strncat (MAX_LINE * 2) (strncat (MAX_LINE * 2) mapped '' '') rest
                        else mapped)
         in Some (strncat (MAX_LINE * 2) mapped1 ''"''))
      else if first_lc = ''history'' then Some (SETM ''rem history shown by this terminal'')
      else if first_lc = ''clear'' then Some (SETM ''cls'')
      else if first_lc = ''!!'' then Some ''!!''
      else if take 1 first_lc = ''!'' then Some input
      else Some (snprintf (MAX_LINE * 2) (''bash -lc "'' @ input @ ''"'')))\<close>

text \<open>
  The block \<^verbatim>\<open>if(source_is_windows && !host_is_windows){...}\<close>. The second \<^verbatim>\<open>cls\<close> rule
  and the comparison of the lower-cased token with \<^verbatim>\<open>"Compress-Archive"\<close> are kept as
  the source has them.
\<close>

definition windows_to_posix :: "string \<Rightarrow> string \<Rightarrow> string \<Rightarrow> string option" where
  \<open>windows_to_posix input first_lc rest =
     (if first_lc = ''dir'' then Some (APPREST rest (SETM ''ls''))
      else if first_lc = ''type'' then Some (APPREST rest (SETM ''cat''))
      else if first_lc = ''copy'' then Some (APPREST rest (SETM ''cp''))
      else if first_lc = ''move'' then Some (APPREST rest (SETM ''mv''))
      else if first_lc = ''del'' \<or> first_lc = ''erase'' then Some (APPREST rest (SETM ''rm''))
      else if first_lc = ''rmdir'' then Some (APPREST rest (SETM ''rm -r''))
      else if first_lc = ''mkdir'' then Some (APPREST rest (SETM ''mkdir''))
      else if first_lc = ''cls'' then Some (SETM ''clear'')
      else if first_lc = ''whoami'' then Some (SETM ''whoami'')
      else if first_lc = ''systeminfo'' then Some (APPREST rest (SETM ''uname -a''))
      else if first_lc = ''hostname'' then Some (SETM ''hostname'')
      else if first_lc = ''date'' then Some (SETM ''date'')
      else if first_lc = ''netstat'' then Some (APPREST rest (SETM ''netstat -tulnp''))
      else if first_lc = ''tasklist'' then Some (APPREST rest (SETM ''ps aux''))
      else if first_lc = ''taskkill'' then
        (let t = trim rest
         in case strstr t ''/PID'' of
              Some pos \<Rightarrow>
                (let p = dropWhile isspace (drop 4 pos);
                     pid = take (MAX_TOK - 1) (takeWhile (\<lambda>c. \<not> isspace c) p)
                 in Some (snprintf (MAX_LINE * 2) (''kill -9 '' @ pid)))
            | None \<Rightarrow> Some (APPREST rest (SETM ''rem cannot map taskkill: check args'')))
      else if first_lc = ''ipconfig'' then Some (APPREST rest (SETM ''ifconfig''))
      else if first_lc = ''ping'' then Some (APPREST rest (SETM ''ping''))
      else if first_lc = ''curl'' then Some (APPREST rest (SETM ''curl''))
      else if first_lc = ''ssh'' then Some (APPREST rest (SETM ''ssh''))
      else if first_lc = ''scp'' then Some (APPREST rest (SETM ''scp''))
      else if first_lc = ''powershell'' then map_option SETM (format_no_args rest)
      else if first_lc = ''wmic'' then Some (APPREST rest (SETM ''df -h''))
      else if first_lc = ''cls'' then Some (SETM ''clear'')
      else if first_lc = ''tar'' \<or> first_lc = ''Compress-Archive'' then
        Some (APPREST rest (SETM ''tar''))
      else if first_lc = ''rem'' then Some (SETM ''true'')
      else if first_lc = ''history'' then Some (SETM ''history'')
      else if first_lc = ''start'' then Some (APPREST rest (SETM ''xdg-open''))
      else Some input)\<close>

text \<open>
  \<^verbatim>\<open>map_command(input, source_is_windows, host_is_windows)\<close>. The two flags are C
  \<^verbatim>\<open>int\<close>s, true when not zero. The identity test comes before \<^verbatim>\<open>split_first\<close>.
\<close>

definition map_command :: "string \<Rightarrow> int \<Rightarrow> int \<Rightarrow> string option" where
  "map_command input source_is_windows host_is_windows =
     (if source_is_windows = host_is_windows then Some input
      else
        (case split_first input of
           None \<Rightarrow> None
         | Some (first, rest) \<Rightarrow>
             if source_is_windows = 0 \<and> host_is_windows \<noteq> 0
               then posix_to_windows input (lc_copy first) rest
             else if source_is_windows \<noteq> 0 \<and> host_is_windows = 0
               then windows_to_posix input (lc_copy first) rest
             else Some input))"

text \<open>
  Whether the call runs the \<^verbatim>\<open>strtok\<close> loop of the \<^verbatim>\<open>tail\<close> rule. That loop leaves
  the hidden state of \<^verbatim>\<open>strtok\<close> pointing into the local array \<^verbatim>\<open>temp\<close>, which is dead
  when \<^verbatim>\<open>map_command\<close> has returned.
\<close>

definition map_command_strtok :: "string \<Rightarrow> int \<Rightarrow> int \<Rightarrow> bool" where
  "map_command_strtok input source_is_windows host_is_windows =
     (source_is_windows = 0 \<and> host_is_windows \<noteq> 0 \<and>
      (case split_first input of
         None \<Rightarrow> False
       | Some (first, rest) \<Rightarrow>
           lc_copy first = ''tail'' \<and> strstr rest ''-f'' = None \<and> strstr rest ''-F'' = None \<and>
           (case strstr rest ''-n'' of
              None \<Rightarrow> False
            | Some nptr \<Rightarrow> (case sscanf_n nptr of Scanned N \<Rightarrow> True | _ \<Rightarrow> False))))"

subsection \<open>\<^verbatim>\<open>map_command\<close> of the two other files\<close>

text \<open>
  \<^verbatim>\<open>cust.c\<close>: the identity test is commented out, so \<^verbatim>\<open>split_first\<close> always runs; a
  stage that no rule of its direction matches falls through to \<^verbatim>\<open>return strdup(input)\<close>.
\<close>

definition map_command_cust :: "string \<Rightarrow> int \<Rightarrow> int \<Rightarrow> string option" where
  "map_command_cust input source_is_windows host_is_windows =
     (case split_first input of
        None \<Rightarrow> None
      | Some (first, rest) \<Rightarrow>
          (let first_lc = lc_copy first;
               l2w = (source_is_windows = 0 \<and> host_is_windows \<noteq> 0);
               w2l = (source_is_windows \<noteq> 0 \<and> host_is_windows = 0)
           in if l2w \<and> first_lc = ''ls'' then Some (APPREST rest (SETM ''dir''))
              else if l2w \<and> first_lc = ''pwd'' then Some (SETM ''cd'')
              else if l2w \<and> first_lc = ''rm'' then Some (APPREST rest (SETM ''del''))
              else if l2w \<and> first_lc = ''mkdir'' then Some (APPREST rest (SETM ''mkdir''))
              else if l2w \<and> first_lc = ''cp'' then Some (APPREST rest (SETM ''copy''))
              else if l2w \<and> first_lc = ''mv'' then Some (APPREST rest (SETM ''move''))
              else if l2w \<and> first_lc = ''cat'' then Some (APPREST rest (SETM ''type''))
              else if l2w \<and> first_lc = ''clear'' then Some (SETM ''cls'')
              else if l2w \<and> first_lc = ''touch'' then Some (SETM (''type nul > '' @ rest))
              else if w2l \<and> first_lc = ''dir'' then Some (APPREST rest (SETM ''ls''))
              else if w2l \<and> first_lc = ''del'' then Some (APPREST rest (SETM ''rm''))
              else if w2l \<and> first_lc = ''copy'' then Some (APPREST rest (SETM ''cp''))
              else if w2l \<and> first_lc = ''move'' then Some (APPREST rest (SETM ''mv''))
              else if w2l \<and> first_lc = ''type'' then Some (APPREST rest (SETM ''cat''))
              else if w2l \<and> first_lc = ''cls'' then Some (SETM ''clear'')
              else Some input))"

text \<open>
  The third file: every stage that no rule matches becomes the text written by
  \<^verbatim>\<open>gemini_ai_answer\<close> into a buffer of \<^verbatim>\<open>MAX_LINE\<close> bytes.
\<close>

definition gemini_ai_answer :: "string \<Rightarrow> string \<Rightarrow> string" where
  \<open>gemini_ai_answer query os_context =
     snprintf MAX_LINE
       (''Gemini AI: I don't know '' @ [CHR 0x27] @ query @ [CHR 0x27] @ '' on '' @ os_context @
        ''. Suggest checking documentation or OS-specific command.'')\<close>

definition map_command_gemini :: "string \<Rightarrow> int \<Rightarrow> int \<Rightarrow> string option" where
  "map_command_gemini input source_is_windows host_is_windows =
     (if source_is_windows = host_is_windows then Some input
      else
        (case split_first input of
           None \<Rightarrow> None
         | Some (first, rest) \<Rightarrow>
             (let first_lc = lc_copy first
              in if source_is_windows = 0 \<and> host_is_windows \<noteq> 0 then
                   (if first_lc = ''ls'' then Some (APPREST rest (SETM ''dir''))
                    else if first_lc = ''pwd'' then Some ''cd''
                    else if first_lc = ''cat'' then Some (APPREST rest (SETM ''type''))
                    else if first_lc = ''rm'' then Some (APPREST rest (SETM ''del''))
                    else Some (gemini_ai_answer input ''Windows''))
                 else if source_is_windows \<noteq> 0 \<and> host_is_windows = 0 then
                   (if first_lc = ''dir'' then Some (APPREST rest (SETM ''ls''))
                    else if first_lc = ''type'' then Some (APPREST rest (SETM ''cat''))
                    else if first_lc = ''del'' then Some (APPREST rest (SETM ''rm''))
                    else Some (gemini_ai_answer input ''Linux/macOS/iOS''))
                 else Some (gemini_ai_answer input
                              (if host_is_windows \<noteq> 0 then ''Windows'' else ''Linux/macOS/iOS'')))))"

subsection \<open>Built-in commands and the pipeline (\<^verbatim>\<open>custard.c\<close>)\<close>

text \<open>
  What the program does to the outside is a list of events: a text written to the standard
  output, or a command line handed to \<^verbatim>\<open>system\<close>. A call either returns, or ends the
  process with \<^verbatim>\<open>exit(0)\<close>, or is undefined.
\<close>

datatype event = Print string | System string

datatype 'a outcome = Undefined | Exit | Ret 'a

definition help_text :: "string list" where
  "help_text =
     [''Universal Terminal '' @ [CHR 0xE2, CHR 0x80, CHR 0x94] @ '' Help\<newline>'',
      ''-------------------------\<newline>'',
      ''Built-in commands:\<newline>'',
      ''  exit, quit       : Exit the terminal\<newline>'',
      ''  history          : Show last 100 commands\<newline>'',
      ''  clear            : Clear the screen\<newline>'',
      ''  !!               : Repeat last command\<newline>'',
      ''  !<num>           : Repeat command number <num> from history\<newline>'',
      ''  help             : Show this help message\<newline>'',
      ''\<newline>Command translation:\<newline>'',
      ''  You can type commands in your chosen dialect (Windows CMD or Linux Bash)\<newline>'',
      ''  Common commands like ls, dir, cp, move, rm, del, cat, etc., are mapped to the host OS\<newline>'',
      ''  Piped commands (using |) are supported and translated\<newline>'']"

text \<open>\<^verbatim>\<open>print_history\<close>: the last 100 entries, each with its slot number plus one.\<close>

definition print_history :: "string list \<Rightarrow> event list" where
  "print_history hist =
     (let start = (if length hist > 100 then length hist - 100 else 0)
      in map (\<lambda>i. Print (show_int (int i + 1) @ ''  '' @ hist ! i @ ''\<newline>''))
           [start ..< length hist])"

text \<open>
  \<^verbatim>\<open>handle_builtin_pipeline\<close>. \<open>win\<close> is the compile-time \<^verbatim>\<open>HOST_IS_WINDOWS\<close>. The result
  \<open>Ret True\<close> is the C return value 1, \<open>Ret False\<close> is 0.
\<close>

definition handle_builtin_pipeline ::
  "bool \<Rightarrow> string list \<Rightarrow> string \<Rightarrow> event list \<times> bool outcome" where
  "handle_builtin_pipeline win hist cmd =
     (case split_first cmd of
        None \<Rightarrow> ([], Undefined)
      | Some (first, rest) \<Rightarrow>
          (let first_lc = lc_copy first
           in if first_lc = ''help'' then (map Print help_text, Ret True)
              else if first_lc = ''exit'' \<or> first_lc = ''quit'' then ([], Exit)
              else if first_lc = ''history'' then (print_history hist, Ret True)
              else if first_lc = ''clear'' then
                ([System (if win then ''cls'' else ''clear'')], Ret True)
              else ([], Ret False)))"

text \<open>
  The tokens that the calls \<^verbatim>\<open>STRTOK(copy, "|", &saveptr)\<close>, \<^verbatim>\<open>STRTOK(NULL, "|", &saveptr)\<close>,
  ... return one after the other: the non-empty fields between the separators.
\<close>

fun fields :: "char \<Rightarrow> string \<Rightarrow> string list" where
  "fields d [] = [[]]"
| "fields d (c # cs) =
     (if c = d then [] # fields d cs
      else (case fields d cs of [] \<Rightarrow> [[c]] | f # fs \<Rightarrow> (c # f) # fs))"

definition strtok_tokens :: "char \<Rightarrow> string \<Rightarrow> string list" where
  "strtok_tokens d s = filter (\<lambda>t. length t \<noteq> 0) (fields d s)"

text \<open>
  The \<^verbatim>\<open>while (token)\<close> loop of \<^verbatim>\<open>translate_pipeline\<close>, over the tokens still to come,
  with the buffer \<^verbatim>\<open>buf\<close> and the flag \<^verbatim>\<open>first\<close>. On a Windows build \<^verbatim>\<open>STRTOK\<close> is
  \<^verbatim>\<open>strtok\<close>: after a stage whose translation ran the inner \<^verbatim>\<open>strtok\<close> loop, the next
  \<^verbatim>\<open>STRTOK(NULL, ...)\<close> reads through a pointer into a dead array.
\<close>

fun pipeline_loop ::
  "bool \<Rightarrow> string list \<Rightarrow> int \<Rightarrow> int \<Rightarrow> string list \<Rightarrow> string \<Rightarrow> bool \<Rightarrow>
   event list \<times> string outcome" where
  "pipeline_loop win hist src host [] buf first = ([], Ret buf)"
| "pipeline_loop win hist src host (token # toks) buf first =
     (let t = trim token
      in if length t > 0 then
           (case handle_builtin_pipeline win hist t of
              (ev, Undefined) \<Rightarrow> (ev, Undefined)
            | (ev, Exit) \<Rightarrow> (ev, Exit)
            | (ev, Ret handled) \<Rightarrow>
                if handled then
                  (case pipeline_loop win hist src host toks buf first of
                     (ev', r) \<Rightarrow> (ev @ ev', r))
                else
                  (case map_command t src host of
                     None \<Rightarrow> (ev, Undefined)
                   | Some mapped \<Rightarrow>
                       (let buf1 = (if \<not> first then strncat (MAX_LINE * 2) buf '' | '' else buf);
                            buf2 = strncat (MAX_LINE * 2) buf1 mapped
                        in if win \<and> map_command_strtok t src host then (ev, Undefined)
                           else (case pipeline_loop win hist src host toks buf2 False of
                                   (ev', r) \<Rightarrow> (ev @ ev', r)))))
         else pipeline_loop win hist src host toks buf first)"

definition translate_pipeline ::
  "bool \<Rightarrow> string list \<Rightarrow> string \<Rightarrow> int \<Rightarrow> int \<Rightarrow> event list \<times> string outcome" where
  "translate_pipeline win hist line source_is_windows host_is_windows =
     pipeline_loop win hist source_is_windows host_is_windows
       (strtok_tokens CHR ''|'' line) [] True"

subsection \<open>The session loop (\<^verbatim>\<open>main\<close> of \<^verbatim>\<open>custard.c\<close>)\<close>

text \<open>
  Running the translated command. \<open>rc\<close> gives the value \<^verbatim>\<open>system\<close> returns for a command
  line (it belongs to the host). On a Windows build a translation that contains a bar is
  cut at the bars and each part is run on its own, leading spaces skipped.
\<close>

definition run_system :: "(string \<Rightarrow> int) \<Rightarrow> string \<Rightarrow> event list" where
  "run_system rc cmdline =
     System cmdline #
     (if rc cmdline = - 1 then [Print ''Failed to run command on host shell.\<newline>''] else [])"

definition execute :: "bool \<Rightarrow> (string \<Rightarrow> int) \<Rightarrow> string \<Rightarrow> event list" where
  \<open>execute win rc translated =
     (if win then
        (if CHR ''|'' \<in> set translated then
           concat (map (\<lambda>token.
                     (let cmdline = snprintf (MAX_LINE * 3)
                            (''cmd /C "'' @ dropWhile (\<lambda>c. c = CHR '' '') token @ ''"'')
                      in Print (''[Running ->] '' @ cmdline @ ''\<newline>'') # run_system rc cmdline))
                   (strtok_tokens CHR ''|'' (take (MAX_LINE * 3 - 1) translated)))
         else run_system rc (snprintf (MAX_LINE * 3) (''cmd /C "'' @ translated @ ''"'')))
      else run_system rc translated)\<close>

text \<open>
  One turn of the \<^verbatim>\<open>while(1)\<close> loop of \<^verbatim>\<open>main\<close>, from the line that \<^verbatim>\<open>fgets\<close> has read
  (the prompt is printed before). The result is the events, the history after the turn,
  and whether the loop goes on (\<open>Ret True\<close>), is left by \<^verbatim>\<open>break\<close> (\<open>Ret False\<close>), or the
  process ends inside \<^verbatim>\<open>translate_pipeline\<close>.
\<close>

definition starts_with :: "string \<Rightarrow> string \<Rightarrow> bool" where
  "starts_with s p = (take (length p) s = p)"

definition main_turn ::
  "bool \<Rightarrow> (string \<Rightarrow> int) \<Rightarrow> int \<Rightarrow> string list \<Rightarrow> string \<Rightarrow>
   event list \<times> string list \<times> bool outcome" where
  \<open>main_turn win rc source_is_windows hist raw =
     (let line = trim raw
      in if length line = 0 then ([], hist, Ret True)
         else if line = ''help'' then
           (map Print help_text, add_history (Some line) hist, Ret True)
         else if line = ''CTRL + C'' \<or> line = ''CTRL+C'' then
           ([Print (''[Note] To send an interrupt to a running process, press Ctrl-C '' @
                    ''on your keyboard while it's running.\<newline>'')], hist, Ret True)
         else if line = ''CTRL + D'' \<or> line = ''CTRL+D'' then
           ([Print (''[Note] Ctrl-D sends EOF in UNIX shells (pressing it here won't exit '' @
                    ''the terminal session). Use 'exit' to quit.\<newline>'')], hist, Ret True)
         else if line = ''CTRL + Z'' \<or> line = ''CTRL+Z'' then
           ([Print (''[Note] Ctrl-Z suspends a process in UNIX; job control not fully '' @
                    ''supported across OS translations.\<newline>'')], hist, Ret True)
         else
           (case (if take 1 line = ''!'' then expand_bang hist line else Some line) of
              None \<Rightarrow> ([], hist, Undefined)
            | Some expanded \<Rightarrow>
                if take 1 line = ''!'' \<and> length expanded = 0 then
                  ([Print ''No such history entry.\<newline>''], hist, Ret True)
                else
                  (let ev0 = (if take 1 line = ''!''
                              then [Print (''[Expanded] '' @ expanded @ ''\<newline>'')] else []);
                       line1 = (if take 1 line = ''!'' then take (MAX_LINE - 1) expanded else line)
                   in case split_first line1 of
                        None \<Rightarrow> (ev0, hist, Undefined)
                      | Some (first, rest) \<Rightarrow>
                          (let first_lc = lc_copy first
                           in if first_lc = ''exit'' \<or> first_lc = ''quit'' then
                                (ev0, hist, Ret False)
                              else if first_lc = ''history'' then
                                (ev0 @ print_history hist, add_history (Some line1) hist, Ret True)
                              else if first_lc = ''clear'' then
                                (ev0 @ [System (if win then ''cls'' else ''clear'')],
                                 add_history (Some line1) hist, Ret True)
                              else
                                (let hist1 = add_history (Some line1) hist
                                 in case translate_pipeline win hist1 line1 source_is_windows
                                           (if win then 1 else 0) of
                                      (ev1, Undefined) \<Rightarrow> (ev0 @ ev1, hist1, Undefined)
                                    | (ev1, Exit) \<Rightarrow> (ev0 @ ev1, hist1, Exit)
                                    | (ev1, Ret translated) \<Rightarrow>
                                        if starts_with translated ''rem '' \<or>
                                           starts_with translated ''true'' \<or>
                                           starts_with translated ''echo ''
                                        then
                                          (ev0 @ ev1 @
                                           [Print (''[Translated note] '' @ translated @ ''\<newline>'')],
                                           hist1, Ret True)
                                        else
                                          (ev0 @ ev1 @
                                           [Print (''[Translated ->] '' @ translated @ ''\<newline>'')] @
                                           (if length translated > 0 then
                                              Print (''[Translated ->] '' @ translated @ ''\<newline>'') #
                                              execute win rc translated
                                            else []),
                                           hist1, Ret True))))))\<close>

subsection \<open>Notions used to state the properties\<close>

text \<open>Recording a sequence of lines, one \<^verbatim>\<open>add_history\<close> call each, in order.\<close>

definition record_all :: "string list \<Rightarrow> string list \<Rightarrow> string list" where
  "record_all hist xs = foldl (\<lambda>h c. add_history (Some c) h) hist xs"

text \<open>
  The two tables of \<^verbatim>\<open>map_command\<close> (\<^verbatim>\<open>custard.c\<close>). \<open>posix_to_windows_verbs\<close> and
  \<open>windows_to_posix_verbs\<close> are the verbs that a block compares the lower-cased first
  token with and whose rule fires whatever the remainder is, in the order of the source.
  One rule more asks for a remainder: \<^verbatim>\<open>ip\<close> fires only when the remainder contains
  \<^verbatim>\<open>addr\<close>. A (verb, remainder) pair is listed in a direction when one of these rules
  fires on it.
\<close>

definition posix_to_windows_verbs :: "string list" where
  "posix_to_windows_verbs =
     [''pwd'', ''ls'', ''mkdir'', ''rmdir'', ''rm'', ''touch'', ''cp'', ''mv'', ''cat'', ''less'',
      ''more'', ''head'', ''tail'', ''chmod'', ''chown'', ''whoami'', ''uname'', ''hostname'',
      ''date'', ''uptime'', ''df'', ''du'', ''free'', ''top'', ''htop'', ''ps'', ''kill'', ''jobs'',
      ''fg'', ''bg'', ''ping'', ''curl'', ''wget'', ''ifconfig'', ''netstat'', ''ssh'',
      ''scp'', ''sudo'', ''apt'', ''dnf'', ''pacman'', ''adduser'', ''passwd'', ''su'', ''who'',
      ''id'', ''groups'', ''tar'', ''zip'', ''unzip'', ''history'', ''clear'', ''!!'']"

definition windows_to_posix_verbs :: "string list" where
  "windows_to_posix_verbs =
     [''dir'', ''type'', ''copy'', ''move'', ''del'', ''erase'', ''rmdir'', ''mkdir'', ''cls'',
      ''whoami'', ''systeminfo'', ''hostname'', ''date'', ''netstat'', ''tasklist'', ''taskkill'',
      ''ipconfig'', ''ping'', ''curl'', ''ssh'', ''scp'', ''powershell'', ''wmic'', ''tar'',
      ''Compress-Archive'', ''rem'', ''history'', ''start'']"

definition posix_to_windows_listed :: "string \<Rightarrow> string \<Rightarrow> bool" where
  "posix_to_windows_listed first_lc rest =
     (first_lc \<in> set posix_to_windows_verbs \<or>
      (first_lc = ''ip'' \<and> strstr rest ''addr'' \<noteq> None))"

definition windows_to_posix_listed :: "string \<Rightarrow> string \<Rightarrow> bool" where
  "windows_to_posix_listed first_lc rest = (first_lc \<in> set windows_to_posix_verbs)"

text \<open>
  The stages of a line: its bar-separated tokens, trimmed, the empty ones dropped. A stage
  is intercepted when \<^verbatim>\<open>handle_builtin_pipeline\<close> returns 1 on it.
\<close>

definition stages :: "string \<Rightarrow> string list" where
  "stages line = filter (\<lambda>t. length t > 0) (map trim (strtok_tokens CHR ''|'' line))"

definition intercepted :: "bool \<Rightarrow> string list \<Rightarrow> string \<Rightarrow> bool" where
  "intercepted win hist t = (snd (handle_builtin_pipeline win hist t) = Ret True)"

definition builtin_returns :: "bool \<Rightarrow> string list \<Rightarrow> string \<Rightarrow> bool" where
  "builtin_returns win hist t =
     (case snd (handle_builtin_pipeline win hist t) of Ret b \<Rightarrow> True | _ \<Rightarrow> False)"

definition kept_stages :: "bool \<Rightarrow> string list \<Rightarrow> string \<Rightarrow> string list" where
  "kept_stages win hist line = filter (\<lambda>t. \<not> intercepted win hist t) (stages line)"

text \<open>The texts \<open>ms\<close> joined with \<^verbatim>\<open>" | "\<close>; \<open>first\<close> tells whether a separator is due.\<close>

fun join_from :: "bool \<Rightarrow> string list \<Rightarrow> string" where
  "join_from first [] = []"
| "join_from first (m # ms) = (if first then m else '' | '' @ m) @ join_from False ms"

text \<open>
  The number of segments of a text that are separated by \<^verbatim>\<open>" | "\<close>, read from the left
  (\<open>k\<close> bytes of a separator just found are skipped); the empty text has none.
\<close>

fun count_sep :: "nat \<Rightarrow> string \<Rightarrow> nat" where
  "count_sep k [] = 0"
| "count_sep k (c # cs) =
     (if k = 0 \<and> prefix '' | '' (c # cs) then Suc (count_sep 2 cs) else count_sep (k - 1) cs)"

definition segment_count :: "string \<Rightarrow> nat" where
  "segment_count out = (if out = [] then 0 else Suc (count_sep 0 out))"

text \<open>The command lines handed to \<^verbatim>\<open>system\<close> among the events of a turn.\<close>

definition executed :: "event list \<Rightarrow> string list" where
  "executed evs = concat (map (\<lambda>e. case e of System c \<Rightarrow> [c] | Print t \<Rightarrow> []) evs)"

section \<open>Properties\<close>

subsection \<open>History store and bang expansion\<close>

lemma add_history_step:
  "length h \<le> MAX_HISTORY \<Longrightarrow> c \<noteq> [] \<Longrightarrow>
   add_history (Some c) h = drop (length h + 1 - MAX_HISTORY) (h @ [c])"
  by (cases h) (auto simp: add_history_def MAX_HISTORY_def)

lemma record_all_drop:
  "list_all (\<lambda>x. x \<noteq> []) xs \<Longrightarrow> length h \<le> MAX_HISTORY \<Longrightarrow>
   record_all h xs = drop (length h + length xs - MAX_HISTORY) (h @ xs)"
proof (induction xs arbitrary: h)
  case Nil
  then show ?case by (simp add: record_all_def)
next
  case (Cons x xs)
  let ?d = "length h + 1 - MAX_HISTORY"
  let ?h = "drop ?d (h @ [x])"
  from Cons.prems have x: "x \<noteq> []" and xs: "list_all (\<lambda>x. x \<noteq> []) xs" by simp_all
  have step: "add_history (Some x) h = ?h"
    using add_history_step [OF Cons.prems(2) x] .
  have len: "length ?h \<le> MAX_HISTORY" using Cons.prems(2) by simp
  have "record_all h (x # xs) = record_all ?h xs"
    by (simp add: record_all_def step)
  also have "\<dots> = drop (length ?h + length xs - MAX_HISTORY) (?h @ xs)"
    by (rule Cons.IH [OF xs len])
  also have "?h @ xs = drop ?d (h @ x # xs)"
    using Cons.prems(2) by (simp add: MAX_HISTORY_def)
  also have "drop (length ?h + length xs - MAX_HISTORY) (drop ?d (h @ x # xs)) =
             drop (length h + length (x # xs) - MAX_HISTORY) (h @ x # xs)"
  proof -
    have "length ?h + length xs - MAX_HISTORY + ?d = length h + length (x # xs) - MAX_HISTORY"
      using Cons.prems(2) by (simp add: MAX_HISTORY_def)
    then show ?thesis by (simp only: drop_drop)
  qed
  finally show ?case .
qed

lemma digit_val_nonneg: "0 \<le> digit_val c"
  by (auto simp: digit_val_def split: option.splits if_splits)

lemma foldl_digits_nonneg: "0 \<le> a \<Longrightarrow> 0 \<le> foldl (\<lambda>a c. 10 * a + digit_val c) a ds"
  by (induction ds arbitrary: a) (simp_all add: digit_val_nonneg)

lemma digits_val_nonneg: "0 \<le> digits_val ds"
  by (simp add: digits_val_def foldl_digits_nonneg)

lemma isdigit_not_space: "isdigit c \<Longrightarrow> \<not> isspace c"
  by (auto simp: isdigit_def isspace_def)

lemma isdigit_not_sign: "isdigit c \<Longrightarrow> c \<noteq> CHR ''-'' \<and> c \<noteq> CHR ''+'' \<and> c \<noteq> CHR ''!''"
  by (auto simp: isdigit_def)

lemma takeWhile_all: "list_all P xs \<Longrightarrow> takeWhile P xs = xs"
  by (induction xs) simp_all

lemma atoi_digits:
  assumes "list_all isdigit ds" and "digits_val ds \<le> INT_MAX"
  shows "atoi ds = Some (digits_val ds)"
proof (cases ds)
  case Nil
  then show ?thesis by (simp add: atoi_def digits_val_def INT_MIN_def INT_MAX_def)
next
  case (Cons c cs)
  with assms(1) have c: "isdigit c" by simp
  have p: "dropWhile isspace (c # cs) = c # cs" using c by (simp add: isdigit_not_space)
  have t: "takeWhile isdigit (c # cs) = c # cs" using assms(1) Cons takeWhile_all by blast
  have lo: "INT_MIN \<le> digits_val (c # cs)"
    using digits_val_nonneg [of "c # cs"] by (simp add: INT_MIN_def)
  have hi: "digits_val (c # cs) \<le> INT_MAX" using assms(2) Cons by simp
  show ?thesis
    unfolding Cons atoi_def Let_def p
    using isdigit_not_sign [OF c] lo hi by (simp add: t del: takeWhile.simps)
qed

lemma atoi_1: "atoi ''1'' = Some 1"
  by (simp add: atoi_def isspace_def isdigit_def digits_val_def digit_val_def INT_MIN_def INT_MAX_def)

text \<open>
  For a value \<open>n\<close> that \<^verbatim>\<open>atoi\<close> can convert, \<open>n \<le> INT_MAX\<close>, \<^verbatim>\<open>expand_bang\<close> does what is
  asked of it. On \<^verbatim>\<open>!!\<close> it returns the entry recorded last, or the empty string when the
  history is empty. On \<^verbatim>\<open>!\<close> followed by digits only, of decimal value \<open>n\<close>, it returns the
  entry at position \<open>n - 1\<close> exactly when \<open>1 \<le> n \<le>\<close> the current length, and the empty
  string otherwise.
\<close>

lemma expand_bang_in_range:
  assumes "ds \<noteq> []" and "list_all isdigit ds" and "digits_val ds \<le> INT_MAX"
  shows "expand_bang hist ''!!'' = Some (if hist = [] then [] else last hist) \<and>
         expand_bang hist (CHR ''!'' # ds) =
           Some (if 1 \<le> digits_val ds \<and> digits_val ds \<le> int (length hist)
                 then hist ! (nat (digits_val ds) - 1) else [])"
proof -
  obtain c cs where ds: "ds = c # cs" using assms(1) by (cases ds) auto
  with assms(2) have c: "isdigit c" by simp
  have a: "atoi ds = Some (digits_val ds)" using atoi_digits [OF assms(2,3)] .
  have ne: "CHR ''!'' # ds \<noteq> ''!!''" using ds isdigit_not_sign [OF c] by simp
  have "nat (digits_val ds - 1) = nat (digits_val ds) - 1" by simp
  then have 2: "expand_bang hist (CHR ''!'' # ds) =
           Some (if 1 \<le> digits_val ds \<and> digits_val ds \<le> int (length hist)
                 then hist ! (nat (digits_val ds) - 1) else [])"
    using a c ne unfolding expand_bang_def by (auto simp: ds)
  have 1: "expand_bang hist ''!!'' = Some (if hist = [] then [] else last hist)"
    by (simp add: expand_bang_def last_conv_nth)
  show ?thesis using 1 2 by simp
qed

lemma digits_val_examples:
  "digits_val ''1'' = 1" "digits_val ''5'' = 5" "digits_val ''12'' = 12"
  "digits_val ''1000'' = 1000" "digits_val ''4294967297'' = 4294967297"
  by (simp_all add: digits_val_def digit_val_def)

lemma expand_bang_in_range_examples:
  "expand_bang [''ls -l'', ''pwd''] ''!!'' = Some ''pwd'' \<and>
   expand_bang [''ls -l'', ''pwd''] ''!1'' = Some ''ls -l'' \<and>
   expand_bang [''ls -l'', ''pwd''] ''!5'' = Some [] \<and>
   expand_bang (replicate 11 ''a'' @ [''z'']) ''!12'' = Some ''z'' \<and>
   expand_bang (replicate 11 ''a'' @ [''z'']) ''!1000'' = Some [] \<and>
   expand_bang [] ''!!'' = Some []"
  using expand_bang_in_range [of "''1''" "[''ls -l'', ''pwd'']"]
        expand_bang_in_range [of "''5''" "[''ls -l'', ''pwd'']"]
        expand_bang_in_range [of "''12''" "replicate 11 ''a'' @ [''z'']"]
        expand_bang_in_range [of "''1000''" "replicate 11 ''a'' @ [''z'']"]
        expand_bang_in_range [of "''1''" "[]"]
  by (simp add: isdigit_def digits_val_examples INT_MAX_def nth_append)

text \<open>
  C6. The claim: \<^verbatim>\<open>!\<close> followed by digits of value \<open>n\<close> gives the entry at position
  \<open>n - 1\<close> exactly when \<open>1 \<le> n \<le>\<close> the current length, and an empty result for every other
  \<open>n\<close>. The code guards with \<^verbatim>\<open>if(n <= 0 || n > hist_count) return strdup("")\<close>, but \<open>n\<close> is
  the \<^verbatim>\<open>int\<close> that \<^verbatim>\<open>atoi\<close> returns, and the digits are not checked before. The value
  \<open>4294967297\<close> does not fit an \<^verbatim>\<open>int\<close>: the conversion is undefined and the call has no
  defined result, where an empty result is asked for (a conversion that wraps around at
  \<open>2 ^ 32\<close> yields \<open>n = 1\<close>, which passes the guard and recalls the first entry).
\<close>

theorem expand_bang_overflow:
  "digits_val ''4294967297'' = 4294967297 \<and> INT_MAX < 4294967297 \<and>
   (4294967297 :: int) mod 2 ^ 32 = 1 \<and>
   expand_bang [''ls -l'', ''pwd''] ''!4294967297'' = None"
  by (simp add: expand_bang_def atoi_def isspace_def isdigit_def digits_val_examples
        INT_MIN_def INT_MAX_def)

text \<open>
  C10. An input that starts with \<^verbatim>\<open>!\<close>, is not exactly \<^verbatim>\<open>!!\<close> and has no digit right
  after the \<^verbatim>\<open>!\<close> is returned unchanged by \<^verbatim>\<open>expand_bang\<close>, whatever the history holds.
\<close>

theorem expand_bang_unchanged:
  assumes "r \<noteq> ''!''" and "\<not> list_ex isdigit (take 1 r)"
  shows "expand_bang hist (CHR ''!'' # r) = Some (CHR ''!'' # r)"
  using assms by (cases r) (auto simp: expand_bang_def)

theorem expand_bang_unchanged_witness:
  "expand_bang [''ls -l'', ''pwd''] ''!abc'' = Some ''!abc'' \<and> expand_bang [] ''!'' = Some ''!''"
  using expand_bang_unchanged [of "''abc''" "[''ls -l'', ''pwd'']"]
        expand_bang_unchanged [of "[]" "[]"]
  by (simp add: isdigit_def)

text \<open>
  C8. The capacity is \<open>MAX_HISTORY = 1000\<close>. \<^verbatim>\<open>add_history\<close> ignores the null pointer and
  the empty string. After \<open>MAX_HISTORY + k\<close> non-empty lines have been recorded into an
  empty history, the history holds the last \<open>MAX_HISTORY\<close> of them in order (each overflow
  evicts slot 0 and shifts the others down), so its length is \<open>MAX_HISTORY\<close> and \<^verbatim>\<open>!1\<close>
  recalls the line recorded as number \<open>k + 1\<close>.
\<close>

theorem history_bounded_growth:
  assumes "list_all (\<lambda>x. x \<noteq> []) xs" and "length xs = MAX_HISTORY + k"
  shows "MAX_HISTORY = 1000 \<and>
         add_history None h = h \<and> add_history (Some []) h = h \<and>
         record_all [] xs = drop k xs \<and>
         length (record_all [] xs) = MAX_HISTORY \<and>
         expand_bang (record_all [] xs) ''!1'' = Some (xs ! k)"
proof -
  have r: "record_all [] xs = drop k xs"
    using record_all_drop [OF assms(1), of "[]"] assms(2) by simp
  have l: "length (drop k xs) = MAX_HISTORY" using assms(2) by simp
  have "expand_bang (drop k xs) ''!1'' = Some (drop k xs ! 0)"
    using l by (simp add: expand_bang_def atoi_1 isdigit_def MAX_HISTORY_def)
  moreover have "drop k xs ! 0 = xs ! k" using assms(2) by (simp add: MAX_HISTORY_def)
  ultimately show ?thesis using r l by (simp add: add_history_def MAX_HISTORY_def)
qed

theorem history_bounded_growth_witness:
  "length (record_all [] ([''one'', ''two'', ''three''] @ replicate 999 ''x'')) = 1000 \<and>
   expand_bang (record_all [] ([''one'', ''two'', ''three''] @ replicate 999 ''x'')) ''!1'' =
     Some ''three''"
proof -
  let ?xs = "[''one'', ''two'', ''three''] @ replicate 999 ''x''"
  have ne: "list_all (\<lambda>x. x \<noteq> []) ?xs" by (simp add: list_all_iff)
  have len: "length ?xs = MAX_HISTORY + 2" by (simp add: MAX_HISTORY_def)
  have nth: "?xs ! 2 = ''three''" by simp
  have "length (record_all [] ?xs) = MAX_HISTORY \<and>
        expand_bang (record_all [] ?xs) ''!1'' = Some (?xs ! 2)"
    using history_bounded_growth [OF ne len, of "[]"] by blast
  then show ?thesis unfolding nth MAX_HISTORY_def .
qed

subsection \<open>Translation of one stage\<close>

text \<open>
  C1. When the source dialect equals the host dialect, \<^verbatim>\<open>map_command\<close> of \<^verbatim>\<open>custard.c\<close>
  returns the stage text unchanged, for every input; the test comes first, so no token is
  split off and no rule is consulted.
\<close>

theorem map_command_identity:
  "map_command input d d = Some input"
  by (simp add: map_command_def)

text \<open>
  In \<^verbatim>\<open>cust.c\<close> the test is commented out: the stage is split first, and then no rule
  applies, since each rule asks for two different dialects.
\<close>

lemma map_command_cust_identity:
  "map_command_cust input d d = (if split_first input = None then None else Some input)"
  by (auto simp: map_command_cust_def Let_def split: option.splits)

lemma map_command_gemini_identity:
  "map_command_gemini input d d = Some input"
  by (simp add: map_command_gemini_def)

subsection \<open>Buffers\<close>

lemma SETM_fits: "length s < MAX_LINE * 2 \<Longrightarrow> SETM s = s"
  by (simp add: SETM_def snprintf_def)

lemma strncat_fits: "length dst + length src < sz \<Longrightarrow> strncat sz dst src = dst @ src"
  by (simp add: strncat_def)

lemma split_first_bounds:
  "split_first inp = Some (f, r) \<Longrightarrow> length f < MAX_TOK \<and> length r < MAX_LINE"
  by (auto simp: split_first_def Let_def MAX_LINE_def MAX_TOK_def split: list.splits if_splits)

lemma APPREST_fits:
  "length rest < MAX_LINE \<Longrightarrow> length mapped < MAX_LINE \<Longrightarrow> mapped \<noteq> [] \<Longrightarrow>
   APPREST rest (SETM mapped) = (if rest = [] then mapped else mapped @ '' '' @ rest)"
  by (simp add: APPREST_def SETM_def snprintf_def strncat_def MAX_LINE_def)

lemma take_take_append: "take n (take n a @ b) = take n (a @ b)"
  by (cases "length a \<le> n") (simp_all add: min_def)

lemma strncat_take:
  "length buf \<le> sz - 1 \<Longrightarrow> strncat sz buf src = take (sz - 1) (buf @ src)"
  by (simp add: strncat_def)

subsection \<open>Trimming and tokens\<close>

lemma dropWhile_id: "xs = [] \<or> \<not> P (hd xs) \<Longrightarrow> dropWhile P xs = xs"
  by (cases xs) auto

lemma trim_head: "trim s = [] \<or> \<not> isspace (hd (trim s))"
proof (cases "trim s = []")
  case True
  then show ?thesis by simp
next
  case False
  define a where "a = dropWhile isspace s"
  define c where "c = dropWhile isspace (rev a)"
  have t: "trim s = rev c" by (simp add: trim_def a_def c_def)
  have "rev a = takeWhile isspace (rev a) @ c" by (simp add: c_def)
  then have "rev (rev a) = rev (takeWhile isspace (rev a) @ c)" by (rule arg_cong)
  then have a: "a = rev c @ rev (takeWhile isspace (rev a))" by simp
  have rc: "rev c \<noteq> []" using False t by simp
  have "hd (rev c @ rev (takeWhile isspace (rev a))) = hd (rev c)" using rc by simp
  then have "hd a = hd (rev c)" using a by simp
  moreover have "a \<noteq> []" using a rc by auto
  then have "\<not> isspace (hd a)" unfolding a_def by (rule hd_dropWhile)
  ultimately show ?thesis by (simp add: t)
qed

lemma trim_last: "trim s = [] \<or> \<not> isspace (last (trim s))"
proof (cases "trim s = []")
  case True
  then show ?thesis by simp
next
  case False
  define c where "c = dropWhile isspace (rev (dropWhile isspace s))"
  have t: "trim s = rev c" by (simp add: trim_def c_def)
  then have "c \<noteq> []" using False by simp
  then have "\<not> isspace (hd c)" unfolding c_def by (rule hd_dropWhile)
  then show ?thesis using \<open>c \<noteq> []\<close> by (simp add: t last_rev)
qed

lemma trim_trim: "trim (trim s) = trim s"
proof -
  have 1: "dropWhile isspace (trim s) = trim s"
    using trim_head [of s] by (rule dropWhile_id)
  have "rev (trim s) = [] \<or> \<not> isspace (hd (rev (trim s)))"
    using trim_last [of s] by (auto simp: hd_rev)
  then have 2: "dropWhile isspace (rev (trim s)) = rev (trim s)"
    by (rule dropWhile_id)
  have "trim (trim s) = rev (dropWhile isspace (rev (dropWhile isspace (trim s))))"
    by (rule trim_def)
  also have "\<dots> = trim s" by (simp only: 1 2 rev_rev_ident)
  finally show ?thesis .
qed

lemma length_trim: "length (trim s) \<le> length s"
proof -
  have "length (dropWhile isspace (rev (dropWhile isspace s))) \<le>
        length (rev (dropWhile isspace s))"
    by (rule length_dropWhile_le)
  also have "\<dots> = length (dropWhile isspace s)" by simp
  also have "\<dots> \<le> length s" by (rule length_dropWhile_le)
  finally show ?thesis by (simp add: trim_def)
qed

lemma fields_no_sep: "d \<notin> set s \<Longrightarrow> fields d s = [s]"
  by (induction s) auto

lemma strtok_tokens_single: "d \<notin> set s \<Longrightarrow> s \<noteq> [] \<Longrightarrow> strtok_tokens d s = [s]"
  by (simp add: strtok_tokens_def fields_no_sep)

subsection \<open>Single rules of \<^verbatim>\<open>map_command\<close>\<close>

lemma posix_to_windows_rm:
  "posix_to_windows input ''rm'' rest =
     (if strstr rest ''-r'' \<noteq> None \<or> strstr rest ''-rf'' \<noteq> None then
        (let t = replace_first (replace_first rest ''-r'' []) ''-rf'' [];
             mapped = SETM ''rmdir /s /q''
         in Some (if length t \<noteq> 0
                  then strncat (MAX_LINE * 2) (strncat (MAX_LINE * 2) mapped '' '') t
                  else mapped))
      else Some (APPREST rest (SETM ''del'')))"
  by (simp add: posix_to_windows_def)

lemma posix_to_windows_ls:
  "posix_to_windows input ''ls'' rest =
     (if strstr rest ''-l'' \<noteq> None \<and> strstr rest ''-a'' \<noteq> None
        then Some (APPREST rest (SETM ''dir /a /q''))
      else if strstr rest ''-l'' \<noteq> None then Some (APPREST rest (SETM ''dir''))
      else if strstr rest ''-a'' \<noteq> None then Some (APPREST rest (SETM ''dir /a''))
      else Some (APPREST rest (SETM ''dir'')))"
  by (simp add: posix_to_windows_def)

lemma posix_to_windows_free:
  \<open>posix_to_windows input ''free'' rest =
     Some ''systeminfo | findstr /C:"Total Physical Memory" /C:"Available"''\<close>
  by (simp add: posix_to_windows_def SETM_fits MAX_LINE_def)

lemma posix_to_windows_grep:
  \<open>posix_to_windows input ''grep'' rest = Some (snprintf (MAX_LINE * 2) (''bash -lc "'' @ input @ ''"''))\<close>
  by (simp add: posix_to_windows_def)

lemma posix_to_windows_touch:
  "posix_to_windows input ''touch'' rest =
     (if length rest \<noteq> 0 then
        Some (strncat (MAX_LINE * 2)
                (strncat (MAX_LINE * 2) (SETM ''type nul >'') '' '') (trim rest))
      else Some ''rem touch: missing filename'')"
  by (simp add: posix_to_windows_def)

lemma windows_to_posix_rem: "windows_to_posix input ''rem'' rest = Some ''true''"
  by (simp add: windows_to_posix_def SETM_fits MAX_LINE_def)

lemma split_first_rm_rf: "split_first ''rm -rf mydir'' = Some (''rm'', ''-rf mydir'')"
  by (simp add: split_first_def isspace_def MAX_TOK_def MAX_LINE_def)

lemma lc_copy_rm: "lc_copy ''rm'' = ''rm''"
  by (simp add: lc_copy_def tolower_def)

lemma split_first_ls_la: "split_first ''ls -la'' = Some (''ls'', ''-la'')"
  by (simp add: split_first_def isspace_def MAX_TOK_def MAX_LINE_def)

lemma split_first_grep_foo: "split_first ''grep foo'' = Some (''grep'', ''foo'')"
  by (simp add: split_first_def isspace_def MAX_TOK_def MAX_LINE_def)

lemma split_first_free: "split_first ''free'' = Some (''free'', [])"
  by (simp add: split_first_def isspace_def MAX_TOK_def MAX_LINE_def)

lemma split_first_help: "split_first ''help'' = Some (''help'', [])"
  by (simp add: split_first_def isspace_def MAX_TOK_def MAX_LINE_def)

lemma map_command_ls_la: "map_command ''ls -la'' 0 1 = Some ''dir -la''"
  by (simp add: map_command_def split_first_ls_la lc_copy_def tolower_def posix_to_windows_ls APPREST_fits MAX_LINE_def)

lemma map_command_grep_foo: \<open>map_command ''grep foo'' 0 1 = Some ''bash -lc "grep foo"''\<close>
  by (simp add: map_command_def split_first_grep_foo lc_copy_def tolower_def posix_to_windows_grep snprintf_def MAX_LINE_def)

lemma map_command_free:
  \<open>map_command ''free'' 0 1 =
     Some ''systeminfo | findstr /C:"Total Physical Memory" /C:"Available"''\<close>
  by (simp add: map_command_def split_first_free lc_copy_def tolower_def posix_to_windows_free)

lemma map_command_touch:
  assumes "split_first stage = Some (f, rest)" and "lc_copy f = ''touch''" and "h \<noteq> 0"
  shows "map_command stage 0 h =
           Some (if rest \<noteq> [] then ''type nul > '' @ trim rest else ''rem touch: missing filename'')"
proof -
  have "length (trim rest) < MAX_LINE"
    using split_first_bounds [OF assms(1)] length_trim [of rest] by simp
  then have "strncat (MAX_LINE * 2) (strncat (MAX_LINE * 2) (SETM ''type nul >'') '' '') (trim rest) =
        ''type nul > '' @ trim rest"
    by (simp add: SETM_fits strncat_fits MAX_LINE_def)
  then show ?thesis using assms by (simp add: map_command_def posix_to_windows_touch)
qed

lemma map_command_rem:
  assumes "split_first stage = Some (f, rest)" and "lc_copy f = ''rem''" and "s \<noteq> 0"
  shows "map_command stage s 0 = Some ''true''"
  using assms by (simp add: map_command_def windows_to_posix_rem)

lemma strstr_None_longer:
  "strstr s old = None \<Longrightarrow> prefix old old' \<Longrightarrow> strstr s old' = None"
proof (induction s)
  case Nil
  then show ?case by (auto split: if_splits)
next
  case (Cons c cs)
  from Cons.prems(1) have np: "\<not> prefix old (c # cs)" and t: "strstr cs old = None"
    by (auto split: if_splits)
  have "\<not> prefix old' (c # cs)"
    using np Cons.prems(2) prefix_order.trans by blast
  then show ?case using Cons.IH [OF t Cons.prems(2)] by simp
qed

text \<open>An \<^verbatim>\<open>rm\<close> stage with no \<^verbatim>\<open>-r\<close> in its remainder becomes \<^verbatim>\<open>del\<close> with the remainder.\<close>

lemma map_command_rm_plain:
  assumes "split_first stage = Some (f, rest)" and "lc_copy f = ''rm''"
      and "strstr rest ''-r'' = None" and "h \<noteq> 0"
  shows "map_command stage 0 h = Some (if rest = [] then ''del'' else ''del '' @ rest)"
proof -
  have "strstr rest ''-rf'' = None"
    using assms(3) by (rule strstr_None_longer) simp
  moreover have "APPREST rest (SETM ''del'') = (if rest = [] then ''del'' else ''del '' @ rest)"
    using split_first_bounds [OF assms(1)] by (simp add: APPREST_fits MAX_LINE_def)
  ultimately show ?thesis
    using assms by (simp add: map_command_def posix_to_windows_rm)
qed

text \<open>
  C4. The claim: with source POSIX and host Windows an \<^verbatim>\<open>rm\<close> stage whose remainder has
  \<^verbatim>\<open>-r\<close> or \<^verbatim>\<open>-rf\<close> becomes \<^verbatim>\<open>rmdir /s /q\<close> followed by the remainder with those flags
  stripped. The code removes \<^verbatim>\<open>-r\<close> first and \<^verbatim>\<open>-rf\<close> second, so of \<^verbatim>\<open>-rf\<close> the letter
  \<^verbatim>\<open>f\<close> stays: \<^verbatim>\<open>rm -rf mydir\<close> becomes \<^verbatim>\<open>rmdir /s /q f mydir\<close>.
\<close>

theorem rm_rf_leaves_f:
  \<open>map_command ''rm -rf mydir'' 0 1 = Some ''rmdir /s /q f mydir''\<close>
  by (simp add: map_command_def split_first_rm_rf lc_copy_rm posix_to_windows_rm replace_first_def SETM_fits strncat_fits MAX_LINE_def)

text \<open>
  The pair (\<^verbatim>\<open>grep\<close>, \<^verbatim>\<open>foo\<close>) is listed in neither table, and from POSIX to Windows the
  stage \<^verbatim>\<open>grep foo\<close> does not come back verbatim.
\<close>

theorem fallback_verbatim_counterexample:
  \<open>\<not> posix_to_windows_listed ''grep'' ''foo'' \<and> \<not> windows_to_posix_listed ''grep'' ''foo'' \<and>
   split_first ''grep foo'' = Some (''grep'', ''foo'') \<and>
   map_command ''grep foo'' 0 1 = Some ''bash -lc "grep foo"'' \<and>
   map_command ''grep foo'' 0 1 \<noteq> Some ''grep foo''\<close>
  by (simp add: posix_to_windows_listed_def windows_to_posix_listed_def posix_to_windows_verbs_def
        windows_to_posix_verbs_def split_first_grep_foo map_command_grep_foo)

text \<open>
  A verb of \<^verbatim>\<open>MAX_TOK\<close> bytes or more is written past the buffer \<^verbatim>\<open>first\<close>: the call is
  undefined in both directions, whatever the tables hold.
\<close>

lemma split_first_long_verb: "split_first (replicate 256 CHR ''a'') = None"
proof -
  have n: "(256 :: nat) = Suc 255" by simp
  have r: "replicate 256 CHR ''a'' = CHR ''a'' # replicate 255 CHR ''a''"
    unfolding n by (rule replicate_Suc)
  have s: "\<not> isspace CHR ''a''" by (simp add: isspace_def)
  have t: "takeWhile (\<lambda>x. \<not> isspace x) (replicate 255 CHR ''a'') = replicate 255 CHR ''a''"
    using s by (simp add: takeWhile_replicate)
  show ?thesis
    unfolding r split_first_def using s by (simp add: t MAX_TOK_def Let_def)
qed

lemma map_command_long_verb:
  "map_command (replicate 256 CHR ''a'') 1 0 = None"
  "map_command (replicate 256 CHR ''a'') 0 1 = None"
  by (simp_all add: map_command_def split_first_long_verb)

text \<open>
  C2, as the code has it. Take a non-empty stage that \<^verbatim>\<open>split_first\<close> splits into a verb
  and a remainder (the verb is shorter than \<^verbatim>\<open>MAX_TOK\<close> = 256 bytes, so the call is
  defined), the pair being listed in neither table of \<^verbatim>\<open>custard.c\<close>. From Windows to POSIX
  \<^verbatim>\<open>map_command\<close> returns the stage text verbatim. From POSIX to Windows it returns the
  stage text verbatim when the verb starts with \<^verbatim>\<open>!\<close>, and otherwise the stage wrapped for a
  compatibility shell, \<^verbatim>\<open>bash -lc "<stage>"\<close>, cut to what the buffer of \<^verbatim>\<open>MAX_LINE*2\<close> bytes
  holds. Both results are returned strings and neither is empty.
\<close>

theorem fallback_unlisted:
  assumes "input \<noteq> []" and "split_first input = Some (first, rest)"
      and "\<not> posix_to_windows_listed (lc_copy first) rest"
      and "\<not> windows_to_posix_listed (lc_copy first) rest"
      and "s \<noteq> 0" and "h \<noteq> 0"
  shows \<open>map_command input s 0 = Some input \<and>
         map_command input 0 h =
           Some (if take 1 (lc_copy first) = ''!'' then input
                 else take (MAX_LINE * 2 - 1) (''bash -lc "'' @ input @ ''"'')) \<and>
         map_command input s 0 \<noteq> Some [] \<and> map_command input 0 h \<noteq> Some []\<close>
proof -
  have w: "windows_to_posix input (lc_copy first) rest = Some input"
    using assms(4)
    by (simp add: windows_to_posix_listed_def windows_to_posix_verbs_def windows_to_posix_def)
  have p: \<open>posix_to_windows input (lc_copy first) rest =
           Some (if take 1 (lc_copy first) = ''!'' then input
                 else snprintf (MAX_LINE * 2) (''bash -lc "'' @ input @ ''"''))\<close>
    using assms(3)
    by (auto simp: posix_to_windows_listed_def posix_to_windows_verbs_def posix_to_windows_def)
  show ?thesis
    using assms(1,2,5,6) w p by (simp add: map_command_def snprintf_def MAX_LINE_def)
qed

lemma split_first_ip_link: "split_first ''ip link'' = Some (''ip'', ''link'')"
  by (simp add: split_first_def isspace_def MAX_TOK_def MAX_LINE_def)

lemma split_first_bang_word: "split_first ''!abc'' = Some (''!abc'', [])"
  by (simp add: split_first_def isspace_def MAX_TOK_def MAX_LINE_def)

theorem fallback_unlisted_witness:
  \<open>map_command ''grep foo'' 1 0 = Some ''grep foo'' \<and>
   map_command ''grep foo'' 0 1 = Some ''bash -lc "grep foo"'' \<and>
   map_command ''ip link'' 1 0 = Some ''ip link'' \<and>
   map_command ''ip link'' 0 1 = Some ''bash -lc "ip link"'' \<and>
   map_command ''!abc'' 1 0 = Some ''!abc'' \<and>
   map_command ''!abc'' 0 1 = Some ''!abc''\<close>
  using fallback_unlisted [of "''grep foo''" "''grep''" "''foo''" 1 1]
        fallback_unlisted [of "''ip link''" "''ip''" "''link''" 1 1]
        fallback_unlisted [of "''!abc''" "''!abc''" "[]" 1 1]
  by (simp add: split_first_grep_foo split_first_ip_link split_first_bang_word lc_copy_def
        tolower_def posix_to_windows_listed_def windows_to_posix_listed_def
        posix_to_windows_verbs_def windows_to_posix_verbs_def MAX_LINE_def)

text \<open>
  The other two files at the same stage: \<^verbatim>\<open>cust.c\<close> returns it verbatim, the third file
  returns the answer text.
\<close>

lemma map_command_cust_grep_foo: "map_command_cust ''grep foo'' 0 1 = Some ''grep foo''"
  by (simp add: map_command_cust_def split_first_grep_foo lc_copy_def tolower_def)

lemma map_command_gemini_grep_foo:
  \<open>map_command_gemini ''grep foo'' 0 1 =
     Some (''Gemini AI: I don't know '' @ [CHR 0x27] @ ''grep foo'' @ [CHR 0x27] @
           '' on Windows. Suggest checking documentation or OS-specific command.'')\<close>
  by (simp add: map_command_gemini_def split_first_grep_foo lc_copy_def tolower_def
        gemini_ai_answer_def snprintf_def MAX_LINE_def)

subsection \<open>The pipeline\<close>

lemma snd_prepend: "snd (case p of (ev', r) \<Rightarrow> (ev @ ev', r)) = snd p"
  by (cases p) simp

lemma loop_join:
  assumes "list_all (builtin_returns win hist) (filter (\<lambda>t. length t > 0) (map trim toks))"
      and "those (map (\<lambda>t. map_command t s h)
             (filter (\<lambda>t. \<not> intercepted win hist t)
                (filter (\<lambda>t. length t > 0) (map trim toks)))) = Some ms"
      and "list_all (\<lambda>t. \<not> (win \<and> map_command_strtok t s h))
             (filter (\<lambda>t. \<not> intercepted win hist t)
                (filter (\<lambda>t. length t > 0) (map trim toks)))"
      and "length buf \<le> MAX_LINE * 2 - 1"
  shows "snd (pipeline_loop win hist s h toks buf first) =
         Ret (take (MAX_LINE * 2 - 1) (buf @ join_from first ms))"
  using assms
proof (induction toks arbitrary: buf first ms)
  case Nil
  then show ?case by simp
next
  case (Cons tok toks)
  let ?t = "trim tok"
  show ?case
  proof (cases "length ?t > 0")
    case False
    with Cons.prems have "snd (pipeline_loop win hist s h toks buf first) =
         Ret (take (MAX_LINE * 2 - 1) (buf @ join_from first ms))"
      by (intro Cons.IH) simp_all
    with False show ?thesis by simp
  next
    case True
    from True Cons.prems(1) obtain ev b where hb: "handle_builtin_pipeline win hist ?t = (ev, Ret b)"
      by (cases "handle_builtin_pipeline win hist ?t")
         (auto simp: builtin_returns_def split: outcome.splits)
    show ?thesis
    proof (cases b)
      case True
      then have i: "intercepted win hist ?t" using hb by (simp add: intercepted_def)
      have "snd (pipeline_loop win hist s h toks buf first) =
         Ret (take (MAX_LINE * 2 - 1) (buf @ join_from first ms))"
        using Cons.prems \<open>length ?t > 0\<close> i by (intro Cons.IH) simp_all
      then show ?thesis using \<open>length ?t > 0\<close> hb True
        by (simp add: Let_def snd_prepend)
    next
      case False
      then have i: "\<not> intercepted win hist ?t" using hb by (simp add: intercepted_def)
      from Cons.prems(2) \<open>length ?t > 0\<close> i obtain m ms' where
        m: "map_command ?t s h = Some m" and ms: "ms = m # ms'" and
        rest: "those (map (\<lambda>t. map_command t s h)
             (filter (\<lambda>t. \<not> intercepted win hist t)
                (filter (\<lambda>t. length t > 0) (map trim toks)))) = Some ms'"
        by (auto split: option.splits)
      from Cons.prems(3) \<open>length ?t > 0\<close> i have
        ns: "\<not> (win \<and> map_command_strtok ?t s h)" by auto
      let ?buf1 = "if \<not> first then strncat (MAX_LINE * 2) buf '' | '' else buf"
      let ?buf2 = "strncat (MAX_LINE * 2) ?buf1 m"
      have b1: "?buf1 = take (MAX_LINE * 2 - 1) (buf @ (if first then [] else '' | ''))"
        using Cons.prems(4) by (simp add: strncat_take del: take_append)
      then have l1: "length ?buf1 \<le> MAX_LINE * 2 - 1" by simp
      have "?buf2 = take (MAX_LINE * 2 - 1) (?buf1 @ m)"
        using l1 by (rule strncat_take)
      also have "\<dots> = take (MAX_LINE * 2 - 1)
                        (take (MAX_LINE * 2 - 1) (buf @ (if first then [] else '' | '')) @ m)"
        by (simp only: b1)
      also have "\<dots> = take (MAX_LINE * 2 - 1) ((buf @ (if first then [] else '' | '')) @ m)"
        by (rule take_take_append)
      also have "\<dots> = take (MAX_LINE * 2 - 1) (buf @ (if first then m else '' | '' @ m))"
        by (simp del: take_append)
      finally have b2:
        "?buf2 = take (MAX_LINE * 2 - 1) (buf @ (if first then m else '' | '' @ m))" .
      then have l2: "length ?buf2 \<le> MAX_LINE * 2 - 1" by simp
      have "snd (pipeline_loop win hist s h toks ?buf2 False) =
         Ret (take (MAX_LINE * 2 - 1) (?buf2 @ join_from False ms'))"
        using Cons.prems(1,3) \<open>length ?t > 0\<close> i rest l2 by (intro Cons.IH) simp_all
      also have "take (MAX_LINE * 2 - 1) (?buf2 @ join_from False ms') =
                 take (MAX_LINE * 2 - 1)
                   (take (MAX_LINE * 2 - 1) (buf @ (if first then m else '' | '' @ m)) @
                    join_from False ms')"
        by (simp only: b2)
      also have "\<dots> = take (MAX_LINE * 2 - 1)
                   ((buf @ (if first then m else '' | '' @ m)) @ join_from False ms')"
        by (rule take_take_append)
      also have "\<dots> = take (MAX_LINE * 2 - 1) (buf @ join_from first ms)"
        by (simp add: ms del: take_append)
      finally show ?thesis using \<open>length ?t > 0\<close> hb False m ns
        by (simp add: Let_def snd_prepend)
    qed
  qed
qed

lemma those_length: "those xs = Some ys \<Longrightarrow> length ys = length xs"
  by (induction xs arbitrary: ys) (auto split: option.splits)

lemma builtin_ls_la: "handle_builtin_pipeline win hist ''ls -la'' = ([], Ret False)"
  by (simp add: handle_builtin_pipeline_def split_first_ls_la lc_copy_def tolower_def)

lemma builtin_grep_foo: "handle_builtin_pipeline win hist ''grep foo'' = ([], Ret False)"
  by (simp add: handle_builtin_pipeline_def split_first_grep_foo lc_copy_def tolower_def)

lemma builtin_free: "handle_builtin_pipeline win hist ''free'' = ([], Ret False)"
  by (simp add: handle_builtin_pipeline_def split_first_free lc_copy_def tolower_def)

lemma builtin_help: "handle_builtin_pipeline win hist ''help'' = (map Print help_text, Ret True)"
  by (simp add: handle_builtin_pipeline_def split_first_help lc_copy_def tolower_def)

lemma not_strtok:
  assumes "split_first stage = Some (f, rest)" and "lc_copy f \<noteq> ''tail''"
  shows "\<not> map_command_strtok stage s h"
  using assms by (simp add: map_command_strtok_def)

lemma no_strtok_ls_la: "\<not> map_command_strtok ''ls -la'' 0 1"
  by (simp add: map_command_strtok_def split_first_ls_la lc_copy_def tolower_def)

lemma no_strtok_grep_foo: "\<not> map_command_strtok ''grep foo'' 0 1"
  by (simp add: map_command_strtok_def split_first_grep_foo lc_copy_def tolower_def)

lemma no_strtok_free: "\<not> map_command_strtok ''free'' 0 1"
  by (simp add: map_command_strtok_def split_first_free lc_copy_def tolower_def)

lemma tokens_scenario1:
  "strtok_tokens CHR ''|'' ''ls -la | grep foo'' = [''ls -la '', '' grep foo'']"
  by (simp add: strtok_tokens_def)

lemma trim_scenario1: "trim ''ls -la '' = ''ls -la''" "trim '' grep foo'' = ''grep foo''"
  by (simp_all add: trim_def isspace_def)

lemma stages_free: "stages ''free'' = [''free'']"
  by (simp add: stages_def strtok_tokens_def trim_def isspace_def)

lemma stages_witness:
  "stages ''ls -la | help | grep foo'' = [''ls -la'', ''help'', ''grep foo'']"
  by (simp add: stages_def strtok_tokens_def trim_def isspace_def)

text \<open>
  The text \<^verbatim>\<open>-la\<close> has no substring \<^verbatim>\<open>-a\<close>, so the rule for both flags does not fire,
  and the second stage is not passed through unchanged.
\<close>

theorem scenario1_counterexample:
  \<open>strstr ''-la'' ''-a'' = None \<and>
   map_command ''ls -la'' 0 1 \<noteq> Some ''dir /a /q -la'' \<and>
   map_command ''grep foo'' 0 1 \<noteq> Some ''grep foo'' \<and>
   snd (translate_pipeline True [] ''ls -la | grep foo'' 0 1) \<noteq> Ret ''dir /a /q -la | grep foo''\<close>
  by (simp add: translate_pipeline_def tokens_scenario1 trim_scenario1 builtin_ls_la builtin_grep_foo
        map_command_ls_la map_command_grep_foo no_strtok_ls_la no_strtok_grep_foo strncat_fits MAX_LINE_def)

text \<open>
  C3, as the code has it. With source POSIX and host Windows the line
  \<^verbatim>\<open>ls -la | grep foo\<close> is translated to \<^verbatim>\<open>dir -la | bash -lc "grep foo"\<close>: in \<^verbatim>\<open>-la\<close>
  only the substring \<^verbatim>\<open>-l\<close> is found, which gives \<^verbatim>\<open>dir\<close> with the remainder appended; the
  second stage has no rule and is wrapped by the fallback; the two are joined with
  \<^verbatim>\<open>" | "\<close>. Nothing is printed on the way.
\<close>

theorem scenario1_translation:
  \<open>translate_pipeline win hist ''ls -la | grep foo'' 0 1 =
     ([], Ret ''dir -la | bash -lc "grep foo"'')\<close>
  by (simp add: translate_pipeline_def tokens_scenario1 trim_scenario1 builtin_ls_la builtin_grep_foo
        map_command_ls_la map_command_grep_foo no_strtok_ls_la no_strtok_grep_foo strncat_fits MAX_LINE_def)

text \<open>
  The line \<^verbatim>\<open>free\<close> has one stage, which is not intercepted; its translation from POSIX to
  Windows contains a bar of its own, so the translated pipeline has two segments.
\<close>

theorem segment_count_counterexample:
  \<open>kept_stages True [] ''free'' = [''free''] \<and>
   snd (translate_pipeline True [] ''free'' 0 1) =
     Ret ''systeminfo | findstr /C:"Total Physical Memory" /C:"Available"'' \<and>
   segment_count ''systeminfo | findstr /C:"Total Physical Memory" /C:"Available"'' = 2\<close>
  by (simp add: kept_stages_def stages_free intercepted_def builtin_free translate_pipeline_def
        strtok_tokens_def trim_def isspace_def map_command_free no_strtok_free strncat_fits MAX_LINE_def
        segment_count_def)

text \<open>
  C7, as the code has it. Take a line on which \<^verbatim>\<open>handle_builtin_pipeline\<close> returns for every
  stage (no \<^verbatim>\<open>exit\<close> or \<^verbatim>\<open>quit\<close>, no verb too long for its buffer), \<^verbatim>\<open>map_command\<close> is
  defined on every stage that is not intercepted, with results \<open>ms\<close>, and no such stage
  runs the inner \<^verbatim>\<open>strtok\<close> loop on a Windows build. Then \<^verbatim>\<open>translate_pipeline\<close> returns the
  texts \<open>ms\<close> joined with \<^verbatim>\<open>" | "\<close>, cut to the \<^verbatim>\<open>MAX_LINE*2 - 1\<close> bytes that \<^verbatim>\<open>buf\<close> holds:
  one text for each stage that is non-empty after trimming and not intercepted, in the order
  of the line. When every stage is intercepted or empty, the result is the empty string.
\<close>

theorem translate_pipeline_join:
  assumes "list_all (builtin_returns win hist) (stages line)"
      and "those (map (\<lambda>t. map_command t s h) (kept_stages win hist line)) = Some ms"
      and "list_all (\<lambda>t. \<not> (win \<and> map_command_strtok t s h)) (kept_stages win hist line)"
  shows "snd (translate_pipeline win hist line s h) =
           Ret (take (MAX_LINE * 2 - 1) (join_from True ms)) \<and>
         length ms = length (kept_stages win hist line) \<and>
         (kept_stages win hist line = [] \<longrightarrow> snd (translate_pipeline win hist line s h) = Ret [])"
proof -
  have 1: "snd (translate_pipeline win hist line s h) =
           Ret (take (MAX_LINE * 2 - 1) ([] @ join_from True ms))"
    unfolding translate_pipeline_def
    using assms by (intro loop_join) (simp_all add: stages_def kept_stages_def)
  have 2: "length ms = length (kept_stages win hist line)"
    using those_length [OF assms(2)] by simp
  show ?thesis using 1 2 by auto
qed

theorem translate_pipeline_join_witness:
  \<open>kept_stages True [] ''ls -la | help | grep foo'' = [''ls -la'', ''grep foo''] \<and>
   snd (translate_pipeline True [] ''ls -la | help | grep foo'' 0 1) =
     Ret ''dir -la | bash -lc "grep foo"''\<close>
proof -
  have k: "kept_stages True [] ''ls -la | help | grep foo'' = [''ls -la'', ''grep foo'']"
    by (simp add: kept_stages_def stages_witness intercepted_def builtin_ls_la builtin_help builtin_grep_foo)
  have 1: "list_all (builtin_returns True []) (stages ''ls -la | help | grep foo'')"
    by (simp add: stages_witness builtin_returns_def builtin_ls_la builtin_help builtin_grep_foo)
  have 2: \<open>those (map (\<lambda>t. map_command t 0 1) (kept_stages True [] ''ls -la | help | grep foo'')) =
           Some [''dir -la'', ''bash -lc "grep foo"'']\<close>
    by (simp add: k map_command_ls_la map_command_grep_foo)
  have 3: "list_all (\<lambda>t. \<not> (True \<and> map_command_strtok t 0 1))
             (kept_stages True [] ''ls -la | help | grep foo'')"
    by (simp add: k no_strtok_ls_la no_strtok_grep_foo)
  show ?thesis using translate_pipeline_join [OF 1 2 3] k by (simp add: MAX_LINE_def)
qed

subsection \<open>One turn of the session loop\<close>

lemma tolower_bang: "tolower CHR ''!'' = CHR ''!''"
  by (simp add: tolower_def)

lemma split_first_bang:
  assumes "take 1 line = ''!''" and "split_first line = Some (f, r)"
  shows "take 1 (lc_copy f) = ''!''"
proof -
  from assms(1) obtain l where l: "line = CHR ''!'' # l" by (cases line) auto
  have "\<not> isspace CHR ''!''" by (simp add: isspace_def)
  then have "\<exists>t. f = CHR ''!'' # t"
    using assms(2) unfolding l split_first_def by (auto simp: Let_def split: if_splits)
  then show ?thesis by (auto simp: lc_copy_def tolower_bang)
qed

lemma split_first_specials:
  "split_first [] = Some ([], [])"
  "split_first ''CTRL + C'' = Some (''CTRL'', ''+ C'')"
  "split_first ''CTRL+C'' = Some (''CTRL+C'', [])"
  "split_first ''CTRL + D'' = Some (''CTRL'', ''+ D'')"
  "split_first ''CTRL+D'' = Some (''CTRL+D'', [])"
  "split_first ''CTRL + Z'' = Some (''CTRL'', ''+ Z'')"
  "split_first ''CTRL+Z'' = Some (''CTRL+Z'', [])"
  by (simp_all add: split_first_def isspace_def MAX_TOK_def MAX_LINE_def)

lemma lc_copy_specials:
  "lc_copy ''help'' = ''help''" "lc_copy ''CTRL'' = ''ctrl''" "lc_copy ''CTRL+C'' = ''ctrl+c''"
  "lc_copy ''CTRL+D'' = ''ctrl+d''" "lc_copy ''CTRL+Z'' = ''ctrl+z''"
  by (simp_all add: lc_copy_def tolower_def)

lemma plain_line:
  assumes sf: "split_first line = Some (first, rest)"
      and v: "lc_copy first \<notin> set [[], ''help'', ''ctrl'', ''ctrl+c'', ''ctrl+d'', ''ctrl+z'']"
      and nb: "take 1 (lc_copy first) \<noteq> ''!''"
  shows "line \<noteq> [] \<and> line \<noteq> ''help'' \<and> line \<noteq> ''CTRL + C'' \<and> line \<noteq> ''CTRL+C'' \<and>
         line \<noteq> ''CTRL + D'' \<and> line \<noteq> ''CTRL+D'' \<and> line \<noteq> ''CTRL + Z'' \<and> line \<noteq> ''CTRL+Z'' \<and>
         take 1 line \<noteq> ''!''"
proof -
  have "take 1 line \<noteq> ''!''" using split_first_bang [OF _ sf] nb by blast
  moreover have "line \<noteq> []" using sf v by (auto simp: split_first_specials lc_copy_def)
  moreover have "line \<noteq> ''help''" using sf v by (auto simp: split_first_help lc_copy_specials)
  moreover have "line \<noteq> ''CTRL + C'' \<and> line \<noteq> ''CTRL+C'' \<and>
         line \<noteq> ''CTRL + D'' \<and> line \<noteq> ''CTRL+D'' \<and> line \<noteq> ''CTRL + Z'' \<and> line \<noteq> ''CTRL+Z''"
    using sf v by (auto simp: split_first_specials lc_copy_specials)
  ultimately show ?thesis by simp
qed

lemma translate_single:
  assumes sf: "split_first line = Some (first, rest)"
      and v: "lc_copy first \<notin> set [''help'', ''exit'', ''quit'', ''history'', ''clear'']"
      and ne: "line \<noteq> []" and tr: "trim line = line"
      and bar: "CHR ''|'' \<notin> set line"
      and mc: "map_command line s h = Some m"
      and len: "length m < MAX_LINE * 2"
      and st: "\<not> (win \<and> map_command_strtok line s h)"
  shows "translate_pipeline win hist line s h = ([], Ret m)"
proof -
  have hb: "handle_builtin_pipeline win hist line = ([], Ret False)"
    using sf v by (simp add: handle_builtin_pipeline_def)
  have cat: "strncat (MAX_LINE * 2) [] m = m" using len by (simp add: strncat_def)
  show ?thesis
    using ne st
    by (simp add: translate_pipeline_def strtok_tokens_single [OF bar ne] tr hb mc cat)
qed

lemma main_turn_note:
  assumes sf: "split_first (trim raw) = Some (first, rest)"
      and v: "lc_copy first \<notin> set [[], ''help'', ''exit'', ''quit'', ''history'', ''clear'',
                                    ''ctrl'', ''ctrl+c'', ''ctrl+d'', ''ctrl+z'']"
      and nb: "take 1 (lc_copy first) \<noteq> ''!''"
      and bar: "CHR ''|'' \<notin> set (trim raw)"
      and mc: "map_command (trim raw) s (if win then 1 else 0) = Some m"
      and len: "length m < MAX_LINE * 2"
      and st: "\<not> (win \<and> map_command_strtok (trim raw) s (if win then 1 else 0))"
      and nt: "starts_with m ''rem '' \<or> starts_with m ''true'' \<or> starts_with m ''echo ''"
  shows "main_turn win rc s hist raw =
           ([Print (''[Translated note] '' @ m @ ''\<newline>'')],
            add_history (Some (trim raw)) hist, Ret True)"
proof -
  have pl: "trim raw \<noteq> [] \<and> trim raw \<noteq> ''help'' \<and> trim raw \<noteq> ''CTRL + C'' \<and>
         trim raw \<noteq> ''CTRL+C'' \<and> trim raw \<noteq> ''CTRL + D'' \<and> trim raw \<noteq> ''CTRL+D'' \<and>
         trim raw \<noteq> ''CTRL + Z'' \<and> trim raw \<noteq> ''CTRL+Z'' \<and> take 1 (trim raw) \<noteq> ''!''"
    using v by (intro plain_line [OF sf _ nb]) simp
  have tp: "translate_pipeline win (add_history (Some (trim raw)) hist) (trim raw) s
              (if win then 1 else 0) = ([], Ret m)"
    using v pl by (intro translate_single [OF sf _ _ trim_trim bar mc len st]) simp_all
  have b: "lc_copy first \<noteq> ''exit''" "lc_copy first \<noteq> ''quit''" "lc_copy first \<noteq> ''history''"
    "lc_copy first \<noteq> ''clear''" using v by simp_all
  show ?thesis
    unfolding main_turn_def Let_def
    using pl nt by (simp add: sf b tp)
qed

lemma split_first_ls: "split_first ''ls'' = Some (''ls'', [])"
  by (simp add: split_first_def isspace_def MAX_TOK_def MAX_LINE_def)

lemma split_first_touch: "split_first ''touch'' = Some (''touch'', [])"
  by (simp add: split_first_def isspace_def MAX_TOK_def MAX_LINE_def)

lemma split_first_ls_touch: "split_first ''ls | touch'' = Some (''ls'', ''| touch'')"
  by (simp add: split_first_def isspace_def MAX_TOK_def MAX_LINE_def)

lemma lc_copy_verbs: "lc_copy ''ls'' = ''ls''" "lc_copy ''touch'' = ''touch''"
  "lc_copy ''dir'' = ''dir''" "lc_copy ''rem'' = ''rem''"
  by (simp_all add: lc_copy_def tolower_def)

lemma translate_ls_touch:
  "translate_pipeline True hist ''ls | touch'' 0 1 =
     ([], Ret ''dir | rem touch: missing filename'')"
proof -
  have tok: "strtok_tokens CHR ''|'' ''ls | touch'' = [''ls '', '' touch'']"
    by (simp add: strtok_tokens_def)
  have tr: "trim ''ls '' = ''ls''" "trim '' touch'' = ''touch''"
    by (simp_all add: trim_def isspace_def)
  have hb: "handle_builtin_pipeline True hist ''ls'' = ([], Ret False)"
    "handle_builtin_pipeline True hist ''touch'' = ([], Ret False)"
    by (simp_all add: handle_builtin_pipeline_def split_first_ls split_first_touch lc_copy_verbs)
  have mc: "map_command ''ls'' 0 1 = Some ''dir''"
    "map_command ''touch'' 0 1 = Some ''rem touch: missing filename''"
    by (simp_all add: map_command_def split_first_ls split_first_touch lc_copy_verbs
          posix_to_windows_ls posix_to_windows_touch APPREST_def SETM_fits MAX_LINE_def)
  have st: "\<not> map_command_strtok ''ls'' 0 1" "\<not> map_command_strtok ''touch'' 0 1"
    by (simp_all add: map_command_strtok_def split_first_ls split_first_touch lc_copy_verbs)
  show ?thesis
    by (simp add: translate_pipeline_def tok tr hb mc st strncat_fits MAX_LINE_def)
qed

text \<open>
  The test of \<^verbatim>\<open>main\<close> looks at the start of the whole translated line. In the line
  \<^verbatim>\<open>ls | touch\<close> the note of the second stage is not at the start, and on a Windows build
  each part of the translated line is run: the note is handed to \<^verbatim>\<open>system\<close> as
  \<^verbatim>\<open>cmd /C "rem touch: missing filename"\<close>.
\<close>

theorem touch_in_pipeline_counterexample:
  \<open>map_command ''touch'' 0 1 = Some ''rem touch: missing filename'' \<and>
   executed (fst (main_turn True (\<lambda>c. 0) 0 [] ''ls | touch\<newline>'')) =
     [''cmd /C "dir "'', ''cmd /C "rem touch: missing filename"'']\<close>
proof -
  have mc: "map_command ''touch'' 0 1 = Some ''rem touch: missing filename''"
    by (simp add: map_command_def split_first_touch lc_copy_verbs posix_to_windows_touch)
  have tr: "trim ''ls | touch\<newline>'' = ''ls | touch''"
    by (simp add: trim_def isspace_def)
  have ex: \<open>execute True (\<lambda>c. 0) ''dir | rem touch: missing filename'' =
     [Print ''[Running ->] cmd /C "dir "\<newline>'', System ''cmd /C "dir "'',
      Print ''[Running ->] cmd /C "rem touch: missing filename"\<newline>'',
      System ''cmd /C "rem touch: missing filename"'']\<close>
    by (simp add: execute_def strtok_tokens_def snprintf_def run_system_def MAX_LINE_def)
  have "fst (main_turn True (\<lambda>c. 0) 0 [] ''ls | touch\<newline>'') =
     [Print ''[Translated ->] dir | rem touch: missing filename\<newline>'',
      Print ''[Translated ->] dir | rem touch: missing filename\<newline>''] @
     execute True (\<lambda>c. 0) ''dir | rem touch: missing filename''"
    by (simp add: main_turn_def tr split_first_ls_touch lc_copy_verbs translate_ls_touch
          starts_with_def)
  then show ?thesis using mc by (simp add: ex executed_def)
qed

text \<open>
  C5, as the code has it. With source POSIX and host Windows, a stage whose verb is
  \<^verbatim>\<open>touch\<close> becomes \<^verbatim>\<open>type nul > <file>\<close>, the file being the trimmed remainder, when the
  remainder is not empty; with an empty remainder it becomes the note
  \<^verbatim>\<open>rem touch: missing filename\<close>. When that stage is the whole line typed, the turn of the
  session loop prints the note and hands nothing to \<^verbatim>\<open>system\<close>.
\<close>

theorem touch_translation:
  assumes "split_first stage = Some (f, rest)" and "lc_copy f = ''touch''" and "h \<noteq> 0"
  shows "(rest \<noteq> [] \<longrightarrow> map_command stage 0 h = Some (''type nul > '' @ trim rest)) \<and>
         (rest = [] \<longrightarrow> map_command stage 0 h = Some ''rem touch: missing filename'') \<and>
         strstr ''rem touch: missing filename'' ''missing filename'' = Some ''missing filename'' \<and>
         (rest = [] \<and> CHR ''|'' \<notin> set stage \<and> trim raw = stage \<longrightarrow>
            main_turn True rc 0 hist raw =
              ([Print ''[Translated note] rem touch: missing filename\<newline>''],
               add_history (Some stage) hist, Ret True) \<and>
            executed (fst (main_turn True rc 0 hist raw)) = [])"
proof -
  have mc: "map_command stage 0 h =
           Some (if rest \<noteq> [] then ''type nul > '' @ trim rest else ''rem touch: missing filename'')"
    using assms by (rule map_command_touch)
  have turn: "main_turn True rc 0 hist raw =
              ([Print ''[Translated note] rem touch: missing filename\<newline>''],
               add_history (Some stage) hist, Ret True)"
    if r: "rest = []" and bar: "CHR ''|'' \<notin> set stage" and tr: "trim raw = stage"
  proof -
    have sf: "split_first (trim raw) = Some (f, [])" using assms(1) r tr by simp
    have m1: "map_command (trim raw) 0 (if True then 1 else 0) = Some ''rem touch: missing filename''"
      using map_command_touch [OF sf assms(2), of 1] by simp
    have st: "\<not> (True \<and> map_command_strtok (trim raw) 0 (if True then 1 else 0))"
      using not_strtok [OF sf] assms(2) by simp
    have "main_turn True rc 0 hist raw =
           ([Print (''[Translated note] '' @ ''rem touch: missing filename'' @ ''\<newline>'')],
            add_history (Some (trim raw)) hist, Ret True)"
      using assms(2) bar tr
      by (intro main_turn_note [OF sf _ _ _ m1 _ st]) (simp_all add: starts_with_def MAX_LINE_def)
    then show ?thesis using tr by simp
  qed
  have s: "strstr ''rem touch: missing filename'' ''missing filename'' = Some ''missing filename''"
    by simp
  show ?thesis using mc turn s by (auto simp: executed_def)
qed

theorem touch_translation_witness:
  "map_command ''touch a.txt'' 0 1 = Some ''type nul > a.txt'' \<and>
   map_command ''touch'' 0 1 = Some ''rem touch: missing filename'' \<and>
   main_turn True (\<lambda>c. 0) 0 [] ''touch\<newline>'' =
     ([Print ''[Translated note] rem touch: missing filename\<newline>''], [''touch''], Ret True) \<and>
   executed (fst (main_turn True (\<lambda>c. 0) 0 [] ''touch\<newline>'')) = []"
proof -
  have 1: "split_first ''touch a.txt'' = Some (''touch'', ''a.txt'')"
    by (simp add: split_first_def isspace_def MAX_TOK_def MAX_LINE_def)
  have 2: "split_first ''touch'' = Some (''touch'', [])"
    by (simp add: split_first_def isspace_def MAX_TOK_def MAX_LINE_def)
  have 3: "lc_copy ''touch'' = ''touch''" by (simp add: lc_copy_def tolower_def)
  have 4: "trim ''touch\<newline>'' = ''touch''" "trim ''a.txt'' = ''a.txt''"
    by (simp_all add: trim_def isspace_def)
  have 5: "add_history (Some ''touch'') [] = [''touch'']"
    by (simp add: add_history_def MAX_HISTORY_def)
  show ?thesis
    using touch_translation [OF 1 3, of 1 "''touch\<newline>''" "\<lambda>c. 0" "[]"]
          touch_translation [OF 2 3, of 1 "''touch\<newline>''" "\<lambda>c. 0" "[]"]
    by (simp add: 4 5 executed_def)
qed

lemma split_first_dir: "split_first ''dir'' = Some (''dir'', [])"
  by (simp add: split_first_def isspace_def MAX_TOK_def MAX_LINE_def)

lemma split_first_rem_x: "split_first ''rem x'' = Some (''rem'', ''x'')"
  by (simp add: split_first_def isspace_def MAX_TOK_def MAX_LINE_def)

lemma split_first_dir_rem: "split_first ''dir | rem x'' = Some (''dir'', ''| rem x'')"
  by (simp add: split_first_def isspace_def MAX_TOK_def MAX_LINE_def)

lemma translate_dir_rem:
  "translate_pipeline False hist ''dir | rem x'' 1 0 = ([], Ret ''ls | true'')"
proof -
  have tok: "strtok_tokens CHR ''|'' ''dir | rem x'' = [''dir '', '' rem x'']"
    by (simp add: strtok_tokens_def)
  have tr: "trim ''dir '' = ''dir''" "trim '' rem x'' = ''rem x''"
    by (simp_all add: trim_def isspace_def)
  have hb: "handle_builtin_pipeline False hist ''dir'' = ([], Ret False)"
    "handle_builtin_pipeline False hist ''rem x'' = ([], Ret False)"
    by (simp_all add: handle_builtin_pipeline_def split_first_dir split_first_rem_x lc_copy_verbs)
  have mc: "map_command ''dir'' 1 0 = Some ''ls''" "map_command ''rem x'' 1 0 = Some ''true''"
    by (simp_all add: map_command_def split_first_dir split_first_rem_x lc_copy_verbs
          windows_to_posix_def APPREST_def SETM_fits MAX_LINE_def)
  show ?thesis
    by (simp add: translate_pipeline_def tok tr hb mc strncat_fits MAX_LINE_def)
qed

text \<open>
  In the line \<^verbatim>\<open>dir | rem x\<close> the marker of the second stage is not at the start of the
  translated line \<^verbatim>\<open>ls | true\<close>, which is printed as a translation and handed to
  \<^verbatim>\<open>system\<close>.
\<close>

theorem rem_in_pipeline_counterexample:
  \<open>map_command ''rem x'' 1 0 = Some ''true'' \<and>
   main_turn False (\<lambda>c. 0) 1 [] ''dir | rem x\<newline>'' =
     ([Print ''[Translated ->] ls | true\<newline>'', Print ''[Translated ->] ls | true\<newline>'',
       System ''ls | true''], [''dir | rem x''], Ret True) \<and>
   executed (fst (main_turn False (\<lambda>c. 0) 1 [] ''dir | rem x\<newline>'')) = [''ls | true'']\<close>
proof -
  have mc: "map_command ''rem x'' 1 0 = Some ''true''"
    by (simp add: map_command_def split_first_rem_x lc_copy_verbs windows_to_posix_rem)
  have tr: "trim ''dir | rem x\<newline>'' = ''dir | rem x''"
    by (simp add: trim_def isspace_def)
  have "main_turn False (\<lambda>c. 0) 1 [] ''dir | rem x\<newline>'' =
     ([Print ''[Translated ->] ls | true\<newline>'', Print ''[Translated ->] ls | true\<newline>'',
       System ''ls | true''], [''dir | rem x''], Ret True)"
    by (simp add: main_turn_def tr split_first_dir_rem lc_copy_verbs translate_dir_rem
          starts_with_def execute_def run_system_def add_history_def MAX_HISTORY_def)
  then show ?thesis using mc by (simp add: executed_def)
qed

text \<open>
  C9, as the code has it. With source Windows and host POSIX, a stage whose verb is
  \<^verbatim>\<open>rem\<close> becomes the no-op marker \<^verbatim>\<open>true\<close>. When that stage is the whole line typed (as
  \<^verbatim>\<open>rem this is a note\<close>), the turn of the session loop prints \<^verbatim>\<open>[Translated note] true\<close>
  and hands nothing to \<^verbatim>\<open>system\<close>.
\<close>

theorem rem_is_noop:
  assumes "split_first stage = Some (f, rest)" and "lc_copy f = ''rem''" and "s \<noteq> 0"
  shows "map_command stage s 0 = Some ''true'' \<and>
         (CHR ''|'' \<notin> set stage \<and> trim raw = stage \<longrightarrow>
            main_turn False rc s hist raw =
              ([Print ''[Translated note] true\<newline>''], add_history (Some stage) hist, Ret True) \<and>
            executed (fst (main_turn False rc s hist raw)) = [])"
proof -
  have mc: "map_command stage s 0 = Some ''true''" using assms by (rule map_command_rem)
  have turn: "main_turn False rc s hist raw =
              ([Print ''[Translated note] true\<newline>''], add_history (Some stage) hist, Ret True)"
    if bar: "CHR ''|'' \<notin> set stage" and tr: "trim raw = stage"
  proof -
    have sf: "split_first (trim raw) = Some (f, rest)" using assms(1) tr by simp
    have m1: "map_command (trim raw) s (if False then 1 else 0) = Some ''true''"
      using map_command_rem [OF sf assms(2,3)] by simp
    have st: "\<not> (False \<and> map_command_strtok (trim raw) s (if False then 1 else 0))" by simp
    have "main_turn False rc s hist raw =
           ([Print (''[Translated note] '' @ ''true'' @ ''\<newline>'')],
            add_history (Some (trim raw)) hist, Ret True)"
      using assms(2) bar tr
      by (intro main_turn_note [OF sf _ _ _ m1 _ st]) (simp_all add: starts_with_def MAX_LINE_def)
    then show ?thesis using tr by simp
  qed
  show ?thesis using mc turn by (auto simp: executed_def)
qed

theorem rem_is_noop_witness:
  "map_command ''rem this is a note'' 1 0 = Some ''true'' \<and>
   main_turn False (\<lambda>c. 0) 1 [] ''rem this is a note\<newline>'' =
     ([Print ''[Translated note] true\<newline>''], [''rem this is a note''], Ret True) \<and>
   executed (fst (main_turn False (\<lambda>c. 0) 1 [] ''rem this is a note\<newline>'')) = []"
proof -
  have 1: "split_first ''rem this is a note'' = Some (''rem'', ''this is a note'')"
    by (simp add: split_first_def isspace_def MAX_TOK_def MAX_LINE_def)
  have 3: "lc_copy ''rem'' = ''rem''" by (simp add: lc_copy_def tolower_def)
  have 4: "trim ''rem this is a note\<newline>'' = ''rem this is a note''"
    by (simp add: trim_def isspace_def)
  have 5: "add_history (Some ''rem this is a note'') [] = [''rem this is a note'']"
    by (simp add: add_history_def MAX_HISTORY_def)
  show ?thesis
    using rem_is_noop [OF 1 3, of 1 "''rem this is a note\<newline>''" "\<lambda>c. 0" "[]"]
    by (simp add: 4 5 executed_def)
qed

end
